theory Spec2Isabelle
  imports Main "HOL-Library.Word" "HOL-Library.AList"
begin

unbundle bit_operations_syntax

section \<open>JavaScript values\<close>

text \<open>
  A JavaScript string is a sequence of UTF-16 code units; \<open>length\<close>, \<open>slice\<close>,
  \<open>charAt\<close> and a regular expression without the \<open>u\<close> flag all work on code units.
  A code unit is kept as its number, which is below \<open>65536\<close>; the program compares
  code units and never computes with them, so nothing depends on the bound.
  \<open>ascii\<close> embeds a literal of the source text.
\<close>

type_synonym jschar = nat
type_synonym jsstring = "jschar list"

definition ascii :: "string \<Rightarrow> jsstring" where
  "ascii s = map of_char s"

text \<open>
  The values that \<open>JSON.parse\<close> can produce, and \<open>undefined\<close> for an absent property.
  A number is kept as its IEEE 754 binary64 bit pattern: the code only ever asks whether
  it is truthy. The list of a \<open>JObj\<close> is the object's own properties in the order in
  which \<open>Object.entries\<close> enumerates them.
\<close>

datatype json =
    JUndefined
  | JNull
  | JBool bool
  | JNum "64 word"
  | JStr jsstring
  | JArr "json list"
  | JObj "(jsstring \<times> json) list"

datatype jstype = TUndefined | TObject | TBoolean | TNumber | TString

fun typeof :: "json \<Rightarrow> jstype" where
  "typeof JUndefined = TUndefined"
| "typeof JNull = TObject"
| "typeof (JBool _) = TBoolean"
| "typeof (JNum _) = TNumber"
| "typeof (JStr _) = TString"
| "typeof (JArr _) = TObject"
| "typeof (JObj _) = TObject"

definition num_is_zero :: "64 word \<Rightarrow> bool" where
  "num_is_zero w = (w AND 0x7FFFFFFFFFFFFFFF = 0)"

definition num_is_nan :: "64 word \<Rightarrow> bool" where
  "num_is_nan w =
     (w AND 0x7FF0000000000000 = 0x7FF0000000000000 \<and> w AND 0x000FFFFFFFFFFFFF \<noteq> 0)"

text \<open>\<open>ToBoolean\<close>: what \<open>!x\<close> and \<open>x ? a : b\<close> test.\<close>

fun truthy :: "json \<Rightarrow> bool" where
  "truthy JUndefined = False"
| "truthy JNull = False"
| "truthy (JBool b) = b"
| "truthy (JNum w) = (\<not> num_is_zero w \<and> \<not> num_is_nan w)"
| "truthy (JStr s) = (s \<noteq> [])"
| "truthy (JArr _) = True"
| "truthy (JObj _) = True"

text \<open>
  \<open>v?.k\<close> for one of the property names the code reads (\<open>fields\<close>, \<open>commitMessage\<close>,
  \<open>object\<close>, \<open>sha\<close>), none of which is a built-in property of a primitive, an array or
  \<open>Object.prototype\<close>: an own property of an object, \<open>undefined\<close> everywhere else.
\<close>

fun json_get :: "json \<Rightarrow> jsstring \<Rightarrow> json" where
  "json_get (JObj kvs) k = (case map_of kvs k of Some v \<Rightarrow> v | None \<Rightarrow> JUndefined)"
| "json_get _ k = JUndefined"

fun decimal :: "nat \<Rightarrow> jsstring" where
  "decimal n =
     (if n < 10 then [48 + n] else decimal (n div 10) @ [48 + n mod 10])"

declare decimal.simps [simp del]

text \<open>\<open>Object.entries\<close>: the properties of an object, the indexed elements of an array.\<close>

fun object_entries :: "json \<Rightarrow> (jsstring \<times> json) list" where
  "object_entries (JObj kvs) = kvs"
| "object_entries (JArr xs) = zip (map decimal [0..<length xs]) xs"
| "object_entries _ = []"

text \<open>\<open>Array.prototype.join\<close> on an array of strings.\<close>

fun js_join :: "jsstring \<Rightarrow> jsstring list \<Rightarrow> jsstring" where
  "js_join sep [] = []"
| "js_join sep [x] = x"
| "js_join sep (x # y # ys) = x @ sep @ js_join sep (y # ys)"

section \<open>Whitespace\<close>

text \<open>
  The code units that \<open>\s\<close> matches, which are also the ones \<open>trim\<close> strips
  (WhiteSpace and LineTerminator of ECMAScript).
\<close>

definition is_ws :: "jschar \<Rightarrow> bool" where
  "is_ws c = (c \<in> set [0x09, 0x0A, 0x0B, 0x0C, 0x0D, 0x20, 0xA0, 0x1680,
      0x2000, 0x2001, 0x2002, 0x2003, 0x2004, 0x2005, 0x2006, 0x2007, 0x2008, 0x2009,
      0x200A, 0x2028, 0x2029, 0x202F, 0x205F, 0x3000, 0xFEFF])"

text \<open>\<open>value.replace(/\s+/g, " ")\<close>: every maximal run of whitespace becomes one space.\<close>

function replace_ws_runs :: "jsstring \<Rightarrow> jsstring" where
  "replace_ws_runs [] = []"
| "replace_ws_runs (c # cs) =
     (if is_ws c then 0x20 # replace_ws_runs (dropWhile is_ws cs)
      else c # replace_ws_runs cs)"
  by pat_completeness auto
termination
  by (relation "measure length") (auto simp: le_imp_less_Suc length_dropWhile_le)

definition trim :: "jsstring \<Rightarrow> jsstring" where
  "trim s = rev (dropWhile is_ws (rev (dropWhile is_ws s)))"

section \<open>Field registry and sanitizer\<close>

record TemplateFieldConfig =
  cfg_id :: jsstring
  cfg_selector :: "jsstring option"
  cfg_index :: "nat option"
  cfg_attr :: "jsstring option"

definition field :: "string \<Rightarrow> string \<Rightarrow> nat option \<Rightarrow> TemplateFieldConfig" where
  "field i s n =
     \<lparr>cfg_id = ascii i, cfg_selector = Some (ascii s), cfg_index = n, cfg_attr = None\<rparr>"

definition TEMPLATE_FIELD_CONFIGS :: "TemplateFieldConfig list" where
  "TEMPLATE_FIELD_CONFIGS =
    [field ''phone'' ''.card__phone'' None,
     field ''companyWordLeft'' ''.card__company-word'' (Some 0),
     field ''companyAmpersand'' ''.card__company-ampersand'' None,
     field ''companyWordRight'' ''.card__company-word'' (Some 1),
     field ''companyTagline'' ''.card__company-tagline'' None,
     field ''personFirst'' ''.card__person-first'' None,
     field ''personLast'' ''.card__person-last'' None,
     field ''title'' ''.card__title'' None,
     field ''address'' ''.card__bottom-address'' None,
     field ''faxLabel'' ''.card__bottom-contact--fax .card__bottom-label'' None,
     field ''faxValue'' ''.card__bottom-contact--fax .card__bottom-value'' None,
     field ''telexLabel'' ''.card__bottom-contact--telex .card__bottom-label'' None,
     field ''telexValue'' ''.card__bottom-contact--telex .card__bottom-value'' None]"

text \<open>\<open>new Map(entries)\<close>: a later entry for the same key replaces an earlier one.\<close>

definition TEMPLATE_FIELD_MAP :: "jsstring \<Rightarrow> TemplateFieldConfig option" where
  "TEMPLATE_FIELD_MAP = map_of (rev (map (\<lambda>config. (cfg_id config, config)) TEMPLATE_FIELD_CONFIGS))"

type_synonym FieldValueMap = "(jsstring \<times> jsstring) list"

definition sanitizeFieldValue :: "json \<Rightarrow> jsstring" where
  "sanitizeFieldValue v =
     (case v of JStr s \<Rightarrow> trim (replace_ws_runs s) | _ \<Rightarrow> [])"

text \<open>
  A plain object is an association list in property order; \<open>result[key] = x\<close> is
  \<open>AList.update\<close>: it replaces the value of a key that is there and appends a new key.
\<close>

definition normalizeFieldValues :: "json \<Rightarrow> FieldValueMap" where
  "normalizeFieldValues v =
     (if \<not> truthy v \<or> typeof v \<noteq> TObject then []
      else fold (\<lambda>(key, rawValue) result.
                   if TEMPLATE_FIELD_MAP key = None then result
                   else AList.update key (sanitizeFieldValue rawValue) result)
                (object_entries v) [])"

section \<open>Template document\<close>

text \<open>
  The document that \<open>parseHTML\<close> returns, as the tree under \<open>documentElement\<close>, with
  the operations of the DOM that the engine calls: \<open>querySelector\<close>,
  \<open>querySelectorAll\<close>, \<open>textContent\<close>, \<open>getAttribute\<close> and \<open>setAttribute\<close>.
  An element carries its tag name (lower case, as the HTML parser leaves it), its
  attributes and its children. A node is addressed by the child indices that lead to it
  from the root, since the code holds on to a node between finding it and writing it.
\<close>

datatype node =
    Element jsstring "(jsstring \<times> jsstring) list" "node list"
  | Text jsstring
  | Comment jsstring

type_synonym path = "nat list"

text \<open>\<open>String.prototype.split\<close> at the code units that satisfy \<open>P\<close>.\<close>

fun split_where :: "(jschar \<Rightarrow> bool) \<Rightarrow> jsstring \<Rightarrow> jsstring list" where
  "split_where P [] = [[]]"
| "split_where P (c # cs) =
     (if P c then [] # split_where P cs
      else (case split_where P cs of [] \<Rightarrow> [[c]] | p # ps \<Rightarrow> (c # p) # ps))"

text \<open>
  The selectors of the registry and of the title lookup are class selectors
  (\<open>.name\<close>) and type selectors (\<open>name\<close>), joined by the descendant combinator.
\<close>

datatype simple_selector = ByClass jsstring | ByTag jsstring

definition parse_selector :: "jsstring \<Rightarrow> simple_selector list" where
  "parse_selector sel =
     map (\<lambda>p. case p of [] \<Rightarrow> ByTag p
                | c # cs \<Rightarrow> if c = 0x2E then ByClass cs else ByTag p)
         (filter (\<lambda>p. p \<noteq> []) (split_where (\<lambda>c. c = 0x20) sel))"

definition class_list :: "(jsstring \<times> jsstring) list \<Rightarrow> jsstring list" where
  "class_list attrs =
     (case map_of attrs (ascii ''class'') of
        None \<Rightarrow> []
      | Some v \<Rightarrow> filter (\<lambda>p. p \<noteq> [])
                   (split_where (\<lambda>c. c \<in> set [0x09, 0x0A, 0x0C, 0x0D, 0x20]) v))"

fun matches_simple :: "simple_selector \<Rightarrow> jsstring \<Rightarrow> (jsstring \<times> jsstring) list \<Rightarrow> bool" where
  "matches_simple (ByClass c) tag attrs = (c \<in> set (class_list attrs))"
| "matches_simple (ByTag t) tag attrs = (tag = t)"

text \<open>The remaining steps of a selector, innermost first, against the ancestors, nearest first.\<close>

fun matches_ancestors ::
  "simple_selector list \<Rightarrow> (jsstring \<times> (jsstring \<times> jsstring) list) list \<Rightarrow> bool" where
  "matches_ancestors [] ancs = True"
| "matches_ancestors (s # ss) [] = False"
| "matches_ancestors (s # ss) ((tag, attrs) # ancs) =
     (if matches_simple s tag attrs then matches_ancestors ss ancs
      else matches_ancestors (s # ss) ancs)"

definition matches ::
  "simple_selector list \<Rightarrow> (jsstring \<times> (jsstring \<times> jsstring) list) list \<Rightarrow>
     jsstring \<Rightarrow> (jsstring \<times> jsstring) list \<Rightarrow> bool" where
  "matches steps ancs tag attrs =
     (case rev steps of
        [] \<Rightarrow> False
      | s # ss \<Rightarrow> matches_simple s tag attrs \<and> matches_ancestors ss ancs)"

text \<open>The matching elements in document order.\<close>

fun qsa_node ::
  "simple_selector list \<Rightarrow> (jsstring \<times> (jsstring \<times> jsstring) list) list \<Rightarrow> node \<Rightarrow> path list"
and qsa_children ::
  "simple_selector list \<Rightarrow> (jsstring \<times> (jsstring \<times> jsstring) list) list \<Rightarrow> nat \<Rightarrow>
     node list \<Rightarrow> path list" where
  "qsa_node steps ancs (Element tag attrs kids) =
     (if matches steps ancs tag attrs then [[]] else []) @
     qsa_children steps ((tag, attrs) # ancs) 0 kids"
| "qsa_node steps ancs (Text _) = []"
| "qsa_node steps ancs (Comment _) = []"
| "qsa_children steps ancs i [] = []"
| "qsa_children steps ancs i (k # ks) =
     map ((#) i) (qsa_node steps ancs k) @ qsa_children steps ancs (Suc i) ks"

definition querySelectorAll :: "node \<Rightarrow> jsstring \<Rightarrow> path list" where
  "querySelectorAll doc sel = qsa_node (parse_selector sel) [] doc"

definition querySelector :: "node \<Rightarrow> jsstring \<Rightarrow> path option" where
  "querySelector doc sel =
     (case querySelectorAll doc sel of [] \<Rightarrow> None | p # _ \<Rightarrow> Some p)"

fun node_at :: "path \<Rightarrow> node \<Rightarrow> node option" where
  "node_at [] n = Some n"
| "node_at (i # p) n =
     (case n of
        Element tag attrs kids \<Rightarrow> if i < length kids then node_at p (kids ! i) else None
      | _ \<Rightarrow> None)"

text \<open>The \<open>textContent\<close> getter: the text of the descendants, comments left out.\<close>

fun textContent :: "node \<Rightarrow> jsstring"
and textContent_children :: "node list \<Rightarrow> jsstring" where
  "textContent (Element tag attrs kids) = textContent_children kids"
| "textContent (Text s) = s"
| "textContent (Comment s) = s"
| "textContent_children [] = []"
| "textContent_children (k # ks) =
     (case k of Comment _ \<Rightarrow> [] | _ \<Rightarrow> textContent k) @ textContent_children ks"

text \<open>The \<open>textContent\<close> setter: the children are replaced by one text node, or by none.\<close>

fun set_textContent :: "path \<Rightarrow> jsstring \<Rightarrow> node \<Rightarrow> node" where
  "set_textContent [] v n =
     (case n of
        Element tag attrs kids \<Rightarrow> Element tag attrs (if v = [] then [] else [Text v])
      | Text _ \<Rightarrow> Text v
      | Comment _ \<Rightarrow> Comment v)"
| "set_textContent (i # p) v n =
     (case n of
        Element tag attrs kids \<Rightarrow>
          if i < length kids then Element tag attrs (kids[i := set_textContent p v (kids ! i)])
          else n
      | _ \<Rightarrow> n)"

fun setAttribute :: "path \<Rightarrow> jsstring \<Rightarrow> jsstring \<Rightarrow> node \<Rightarrow> node" where
  "setAttribute [] name v n =
     (case n of
        Element tag attrs kids \<Rightarrow> Element tag (AList.update name v attrs) kids
      | _ \<Rightarrow> n)"
| "setAttribute (i # p) name v n =
     (case n of
        Element tag attrs kids \<Rightarrow>
          if i < length kids then Element tag attrs (kids[i := setAttribute p name v (kids ! i)])
          else n
      | _ \<Rightarrow> n)"

definition getAttribute :: "node \<Rightarrow> jsstring \<Rightarrow> jsstring option" where
  "getAttribute n name = (case n of Element tag attrs kids \<Rightarrow> map_of attrs name | _ \<Rightarrow> None)"

section \<open>Template engine\<close>

text \<open>
  The library functions the engine calls, which the code takes from the runtime:
  the Unicode case mappings, the HTML parser and serializer, and the two encoders.
\<close>

record runtime =
  toUpperCase :: "jsstring \<Rightarrow> jsstring"
  toLowerCase :: "jsstring \<Rightarrow> jsstring"
  parseHTML :: "jsstring \<Rightarrow> node"
  outerHTML :: "node \<Rightarrow> jsstring"
  encodeURIComponent :: "jsstring \<Rightarrow> jsstring"
  base64_utf8 :: "jsstring \<Rightarrow> jsstring"

text \<open>
  \<open>getTemplateNode\<close>: no node without a selector; the match number \<open>index\<close> when the
  configuration has one, the first match otherwise. The document always has
  \<open>querySelector\<close>, so that test of the code has no branch here.
\<close>

definition getTemplateNode :: "node \<Rightarrow> TemplateFieldConfig \<Rightarrow> path option" where
  "getTemplateNode doc config =
     (case cfg_selector config of
        None \<Rightarrow> None
      | Some sel \<Rightarrow>
          if sel = [] then None
          else (case cfg_index config of
                  Some i \<Rightarrow>
                    (let nodes = querySelectorAll doc sel
                     in if i < length nodes then Some (nodes ! i) else None)
                | None \<Rightarrow> querySelector doc sel))"

text \<open>\<open>config.attr &&\<close>: an attribute name that is present and not empty.\<close>

definition attr_of :: "TemplateFieldConfig \<Rightarrow> jsstring option" where
  "attr_of config = (case cfg_attr config of Some a \<Rightarrow> if a = [] then None else Some a | None \<Rightarrow> None)"

definition readTemplateField :: "node \<Rightarrow> TemplateFieldConfig \<Rightarrow> jsstring" where
  "readTemplateField doc config =
     (case getTemplateNode doc config of
        None \<Rightarrow> []
      | Some p \<Rightarrow>
          (case node_at p doc of
             None \<Rightarrow> []
           | Some n \<Rightarrow>
               (case attr_of config of
                  Some a \<Rightarrow> (case getAttribute n a of Some v \<Rightarrow> v | None \<Rightarrow> [])
                | None \<Rightarrow> textContent n)))"

definition writeTemplateField :: "node \<Rightarrow> TemplateFieldConfig \<Rightarrow> jsstring \<Rightarrow> node" where
  "writeTemplateField doc config v =
     (case getTemplateNode doc config of
        None \<Rightarrow> doc
      | Some p \<Rightarrow>
          (case attr_of config of
             Some a \<Rightarrow> setAttribute p a v doc
           | None \<Rightarrow> set_textContent p v doc))"

text \<open>\<open>value.charAt(0).toUpperCase() + value.slice(1).toLowerCase()\<close>, on code units.\<close>

definition capitalizeWord :: "runtime \<Rightarrow> jsstring \<Rightarrow> jsstring" where
  "capitalizeWord rt v =
     (case v of [] \<Rightarrow> v | c # cs \<Rightarrow> toUpperCase rt [c] @ toLowerCase rt cs)"

text \<open>The loop over \<open>Object.entries(values)\<close>: the document and \<open>applied\<close> after it.\<close>

definition write_fields :: "FieldValueMap \<Rightarrow> node \<Rightarrow> node \<times> FieldValueMap" where
  "write_fields values doc =
     fold (\<lambda>(fieldId, v) (document, applied).
             case TEMPLATE_FIELD_MAP fieldId of
               None \<Rightarrow> (document, applied)
             | Some config \<Rightarrow>
                 (writeTemplateField document config v, AList.update fieldId v applied))
          values (doc, [])"

text \<open>\<open>[first, last].filter(Boolean).map(capitalizeWord).join(" ").trim()\<close>.\<close>

definition computedTitle :: "runtime \<Rightarrow> jsstring \<Rightarrow> jsstring \<Rightarrow> jsstring" where
  "computedTitle rt first lst =
     trim (js_join [0x20] (map (capitalizeWord rt) (filter (\<lambda>s. s \<noteq> []) [first, lst])))"

text \<open>The assignment to the text of \<open>document.querySelector("title")\<close>, when there is one.\<close>

definition set_title :: "jsstring \<Rightarrow> node \<Rightarrow> node" where
  "set_title v document =
     (case querySelector document (ascii ''title'') of
        Some titleNode \<Rightarrow> set_textContent titleNode v document
      | None \<Rightarrow> document)"

text \<open>The derived-title step that follows the loop.\<close>

definition derive_title :: "runtime \<Rightarrow> node \<Rightarrow> node" where
  "derive_title rt document =
     (case (TEMPLATE_FIELD_MAP (ascii ''personFirst''), TEMPLATE_FIELD_MAP (ascii ''personLast'')) of
        (Some firstConfig, Some lastConfig) \<Rightarrow>
          (let first = sanitizeFieldValue (JStr (readTemplateField document firstConfig));
               lst = sanitizeFieldValue (JStr (readTemplateField document lastConfig));
               title = computedTitle rt first lst
           in if title \<noteq> [] then set_title title document else document)
      | _ \<Rightarrow> document)"

text \<open>
  \<open>applyFieldsToTemplate\<close> between parsing and serializing, and then as a whole.
\<close>

definition applyFieldsToDocument :: "runtime \<Rightarrow> node \<Rightarrow> FieldValueMap \<Rightarrow> node \<times> FieldValueMap" where
  "applyFieldsToDocument rt doc values =
     (let (document, applied) = write_fields values doc
      in (derive_title rt document, applied))"

record ApplyResult =
  html :: jsstring
  applied :: FieldValueMap

definition applyFieldsToTemplate :: "runtime \<Rightarrow> jsstring \<Rightarrow> FieldValueMap \<Rightarrow> ApplyResult" where
  "applyFieldsToTemplate rt templateHtml values =
     (let (document, app) = applyFieldsToDocument rt (parseHTML rt templateHtml) values
      in \<lparr>html = ascii ''<!DOCTYPE html>'' @ [0x0A] @ outerHTML rt document, applied = app\<rparr>)"

section \<open>GitHub client\<close>

text \<open>
  \<open>repoConfig\<close>, read from the environment when the module loads; the functions below
  take it as a parameter. An unset variable with no default is the empty string.
\<close>

record RepoConfig =
  owner :: jsstring
  repo :: jsstring
  baseBranch :: jsstring
  pat :: jsstring
  commitAuthorName :: jsstring
  commitAuthorEmail :: jsstring
  targetFilePath :: jsstring

definition GITHUB_API_VERSION :: jsstring where
  "GITHUB_API_VERSION = ascii ''2022-11-28''"

text \<open>
  The \<open>RequestInit\<close> a caller passes, and the request that \<open>fetch\<close> receives. A body is
  kept as the value that the code hands to \<open>JSON.stringify\<close>.
\<close>

record RequestInit =
  init_method :: jsstring
  init_headers :: "(jsstring \<times> jsstring) list"
  init_body :: "json option"

record request =
  req_url :: jsstring
  req_method :: jsstring
  req_headers :: "(jsstring \<times> jsstring) list"
  req_body :: "json option"

text \<open>
  A response: its status, what \<open>text()\<close> returns and what \<open>json()\<close> returns
  (\<open>None\<close> when the body is not JSON and \<open>json()\<close> throws).
\<close>

record response =
  status :: nat
  body_text :: jsstring
  body_json :: "json option"

definition ok :: "response \<Rightarrow> bool" where
  "ok r = (200 \<le> status r \<and> status r \<le> 299)"

datatype fetch_outcome = NetworkFailure | Responded response

text \<open>
  What the code throws, and what it writes to the console: \<open>Error\<close> with its message for
  the errors the code constructs, \<open>TypeError\<close> for reading a property of \<open>null\<close>,
  \<open>SyntaxError\<close> for \<open>json()\<close> on a body that is not JSON, \<open>FetchFailed\<close> for a
  \<open>fetch\<close> that rejects.
\<close>

datatype error = Error jsstring | TypeError | SyntaxError | FetchFailed

datatype log_arg = LString jsstring | LStatusBody nat jsstring | LError error

datatype log_entry = ConsoleError jsstring "log_arg list" | ConsoleWarn jsstring "log_arg list"

text \<open>
  The effects of a request: the GitHub requests sent, in order; the number of reads of the
  template file; the console. The \<open>n\<close>-th call of \<open>fetch\<close> is answered by \<open>net n\<close>.
\<close>

record world =
  sent :: "request list"
  template_reads :: nat
  logs :: "log_entry list"

type_synonym 'a io = "world \<Rightarrow> (error + 'a) \<times> world"

definition return_io :: "'a \<Rightarrow> 'a io" where
  "return_io x w = (Inr x, w)"

definition throw_io :: "error \<Rightarrow> 'a io" where
  "throw_io e w = (Inl e, w)"

definition bind_io :: "'a io \<Rightarrow> ('a \<Rightarrow> 'b io) \<Rightarrow> 'b io" where
  "bind_io m f w = (case m w of (Inl e, w') \<Rightarrow> (Inl e, w') | (Inr x, w') \<Rightarrow> f x w')"

definition log_io :: "log_entry \<Rightarrow> unit io" where
  "log_io entry w = (Inr (), w\<lparr>logs := logs w @ [entry]\<rparr>)"

text \<open>Object spread \<open>{...base, ...ext}\<close>: the properties of \<open>ext\<close> are assigned in order.\<close>

definition spread :: "('k \<times> 'v) list \<Rightarrow> ('k \<times> 'v) list \<Rightarrow> ('k \<times> 'v) list" where
  "spread base ext = fold (\<lambda>(k, v). AList.update k v) ext base"

definition pat_request :: "RepoConfig \<Rightarrow> jsstring \<Rightarrow> RequestInit \<Rightarrow> request" where
  "pat_request cfg path init =
     \<lparr>req_url = ascii ''https://api.github.com'' @ path,
      req_method = init_method init,
      req_headers =
        spread [(ascii ''Accept'', ascii ''application/vnd.github+json''),
                (ascii ''Authorization'', ascii ''token '' @ pat cfg),
                (ascii ''X-GitHub-Api-Version'', GITHUB_API_VERSION)]
               (init_headers init),
      req_body = init_body init\<rparr>"

definition pat_failure_log :: "jsstring \<Rightarrow> response \<Rightarrow> log_entry" where
  "pat_failure_log path r =
     ConsoleError (ascii ''GitHub PAT request failed: '' @ decimal (status r) @ [0x20] @ path)
       [LString (body_text r)]"

definition githubPatRequest ::
  "RepoConfig \<Rightarrow> (nat \<Rightarrow> fetch_outcome) \<Rightarrow> jsstring \<Rightarrow> RequestInit \<Rightarrow> response io" where
  "githubPatRequest cfg net path init w =
     (if pat cfg = [] then (Inl (Error (ascii ''GitHub PAT is not configured.'')), w)
      else
        (let w1 = w\<lparr>sent := sent w @ [pat_request cfg path init]\<rparr>
         in case net (length (sent w)) of
              NetworkFailure \<Rightarrow> (Inl FetchFailed, w1)
            | Responded r \<Rightarrow>
                if \<not> ok r then (Inr r, w1\<lparr>logs := logs w1 @ [pat_failure_log path r]\<rparr>)
                else (Inr r, w1)))"

section \<open>Branch publisher\<close>

definition encodeGitHubPath :: "runtime \<Rightarrow> jsstring \<Rightarrow> jsstring" where
  "encodeGitHubPath rt path =
     js_join [0x2F] (map (encodeURIComponent rt) (split_where (\<lambda>c. c = 0x2F) path))"

definition repo_path :: "RepoConfig \<Rightarrow> jsstring" where
  "repo_path cfg = ascii ''/repos/'' @ owner cfg @ [0x2F] @ repo cfg"

definition json_header :: "(jsstring \<times> jsstring) list" where
  "json_header = [(ascii ''Content-Type'', ascii ''application/json'')]"

definition identity :: "RepoConfig \<Rightarrow> json" where
  "identity cfg =
     JObj [(ascii ''name'', JStr (commitAuthorName cfg)),
           (ascii ''email'', JStr (commitAuthorEmail cfg))]"

definition readme_get_path :: "runtime \<Rightarrow> RepoConfig \<Rightarrow> jsstring \<Rightarrow> jsstring" where
  "readme_get_path rt cfg branchName =
     repo_path cfg @ ascii ''/contents/'' @ encodeGitHubPath rt (ascii ''README.md'') @
     ascii ''?ref='' @ encodeURIComponent rt branchName"

definition readme_delete_path :: "runtime \<Rightarrow> RepoConfig \<Rightarrow> jsstring" where
  "readme_delete_path rt cfg =
     repo_path cfg @ ascii ''/contents/'' @ encodeGitHubPath rt (ascii ''README.md'')"

definition readme_delete_init :: "RepoConfig \<Rightarrow> jsstring \<Rightarrow> json \<Rightarrow> RequestInit" where
  "readme_delete_init cfg branchName readmeSha =
     \<lparr>init_method = ascii ''DELETE'', init_headers = json_header,
      init_body = Some (JObj
        [(ascii ''message'', JStr (ascii ''chore: remove README for '' @ branchName)),
         (ascii ''branch'', JStr branchName),
         (ascii ''sha'', readmeSha),
         (ascii ''committer'', identity cfg),
         (ascii ''author'', identity cfg)])\<rparr>"

definition get_init :: RequestInit where
  "get_init = \<lparr>init_method = ascii ''GET'', init_headers = [], init_body = None\<rparr>"

definition removeReadmeFromBranch ::
  "runtime \<Rightarrow> RepoConfig \<Rightarrow> (nat \<Rightarrow> fetch_outcome) \<Rightarrow> jsstring \<Rightarrow> unit io" where
  "removeReadmeFromBranch rt cfg net branchName =
     bind_io (githubPatRequest cfg net (readme_get_path rt cfg branchName) get_init)
       (\<lambda>readmeResponse.
          if status readmeResponse = 404 then return_io ()
          else if \<not> ok readmeResponse then
            log_io (ConsoleWarn (ascii ''[/github/preview] Unable to load README metadata.'')
                      [LStatusBody (status readmeResponse) (body_text readmeResponse)])
          else
            (case body_json readmeResponse of
               None \<Rightarrow> throw_io SyntaxError
             | Some readmeData \<Rightarrow>
                 (let readmeSha = json_get readmeData (ascii ''sha'')
                  in if \<not> truthy readmeSha then
                       log_io (ConsoleWarn (ascii ''[/github/preview] README metadata missing SHA.'') [])
                     else
                       bind_io (githubPatRequest cfg net (readme_delete_path rt cfg)
                                  (readme_delete_init cfg branchName readmeSha))
                         (\<lambda>deleteResponse.
                            if \<not> ok deleteResponse \<and> status deleteResponse \<noteq> 404 then
                              log_io (ConsoleWarn (ascii ''[/github/preview] Failed to delete README.'')
                                        [LStatusBody (status deleteResponse) (body_text deleteResponse)])
                            else return_io ()))))"

record PreviewBranchResult =
  branchName :: jsstring
  branchUrl :: jsstring
  vercelImportUrl :: jsstring

definition base_ref_path :: "RepoConfig \<Rightarrow> jsstring" where
  "base_ref_path cfg = repo_path cfg @ ascii ''/git/ref/heads/'' @ baseBranch cfg"

definition create_ref_init :: "jsstring \<Rightarrow> json \<Rightarrow> RequestInit" where
  "create_ref_init branchRef baseSha =
     \<lparr>init_method = ascii ''POST'', init_headers = json_header,
      init_body = Some (JObj [(ascii ''ref'', JStr branchRef), (ascii ''sha'', baseSha)])\<rparr>"

definition update_path :: "runtime \<Rightarrow> RepoConfig \<Rightarrow> jsstring" where
  "update_path rt cfg =
     repo_path cfg @ ascii ''/contents/'' @ encodeGitHubPath rt (targetFilePath cfg)"

definition update_init :: "runtime \<Rightarrow> RepoConfig \<Rightarrow> jsstring \<Rightarrow> jsstring \<Rightarrow> jsstring \<Rightarrow> RequestInit" where
  "update_init rt cfg name content commitMessage =
     \<lparr>init_method = ascii ''PUT'', init_headers = json_header,
      init_body = Some (JObj
        [(ascii ''message'', JStr commitMessage),
         (ascii ''content'', JStr (base64_utf8 rt content)),
         (ascii ''branch'', JStr name),
         (ascii ''committer'', identity cfg),
         (ascii ''author'', identity cfg)])\<rparr>"

definition branch_result :: "runtime \<Rightarrow> RepoConfig \<Rightarrow> jsstring \<Rightarrow> PreviewBranchResult" where
  "branch_result rt cfg name =
     (let tree = ascii ''https://github.com/'' @ owner cfg @ [0x2F] @ repo cfg @
                 ascii ''/tree/'' @ name
      in \<lparr>branchName = name, branchUrl = tree,
          vercelImportUrl =
            ascii ''https://vercel.com/new/clone?repository-url='' @ encodeURIComponent rt tree\<rparr>)"

text \<open>The content commit: the last step of \<open>pushPreviewBranch\<close>.\<close>

definition commit_content ::
  "runtime \<Rightarrow> RepoConfig \<Rightarrow> (nat \<Rightarrow> fetch_outcome) \<Rightarrow> jsstring \<Rightarrow> jsstring \<Rightarrow> jsstring \<Rightarrow>
     PreviewBranchResult io" where
  "commit_content rt cfg net name content commitMessage =
     bind_io (githubPatRequest cfg net (update_path rt cfg)
                (update_init rt cfg name content commitMessage))
       (\<lambda>updateResponse.
          if \<not> ok updateResponse then
            bind_io (log_io (ConsoleError
                       (ascii ''[/github/preview] Failed to update template file.'')
                       [LStatusBody (status updateResponse) (body_text updateResponse)]))
              (\<lambda>_. throw_io (Error (ascii ''Unable to update template file.'')))
          else return_io (branch_result rt cfg name))"

text \<open>\<open>uuid\<close> is what \<open>randomUUID()\<close> returns in this attempt.\<close>

definition pushPreviewBranch ::
  "runtime \<Rightarrow> RepoConfig \<Rightarrow> (nat \<Rightarrow> fetch_outcome) \<Rightarrow> jsstring \<Rightarrow> jsstring \<Rightarrow> jsstring \<Rightarrow>
     PreviewBranchResult io" where
  "pushPreviewBranch rt cfg net uuid content commitMessage =
     (if owner cfg = [] \<or> repo cfg = [] \<or> pat cfg = [] then
        throw_io (Error (ascii ''GitHub repository configuration is incomplete.''))
      else
        bind_io (githubPatRequest cfg net (base_ref_path cfg) get_init)
          (\<lambda>baseRefResponse.
             if \<not> ok baseRefResponse then
               throw_io (Error (ascii ''Unable to load base branch reference.''))
             else
               (case body_json baseRefResponse of
                  None \<Rightarrow> throw_io SyntaxError
                | Some baseRefData \<Rightarrow>
                    (let baseSha = json_get (json_get baseRefData (ascii ''object'')) (ascii ''sha'')
                     in if \<not> truthy baseSha then
                          throw_io (Error (ascii ''Base branch reference missing SHA.''))
                        else
                          (let name = ascii ''card-'' @ uuid;
                               branchRef = ascii ''refs/heads/'' @ name
                           in bind_io (githubPatRequest cfg net (repo_path cfg @ ascii ''/git/refs'')
                                         (create_ref_init branchRef baseSha))
                                (\<lambda>createRefResponse.
                                   if \<not> ok createRefResponse then
                                     bind_io (log_io (ConsoleError
                                                (ascii ''[/github/preview] Failed to create branch.'')
                                                [LStatusBody (status createRefResponse)
                                                   (body_text createRefResponse)]))
                                       (\<lambda>_. throw_io (Error (ascii ''Unable to create preview branch.'')))
                                   else
                                     bind_io (removeReadmeFromBranch rt cfg net name)
                                       (\<lambda>_. commit_content rt cfg net name content commitMessage)))))))"

section \<open>Preview endpoint\<close>

datatype http_response = TextResponse jsstring nat | JsonResponse json

fun response_status :: "http_response \<Rightarrow> nat" where
  "response_status (TextResponse _ code) = code"
| "response_status (JsonResponse _) = 200"

text \<open>\<open>v.k\<close>: reading a property of \<open>null\<close> or \<open>undefined\<close> throws.\<close>

definition property :: "json \<Rightarrow> jsstring \<Rightarrow> error + json" where
  "property v k = (if v = JNull \<or> v = JUndefined then Inl TypeError else Inr (json_get v k))"

text \<open>\<open>now\<close> is what \<open>new Date().toISOString()\<close> returns in this request.\<close>

definition commit_message :: "json \<Rightarrow> jsstring \<Rightarrow> jsstring" where
  "commit_message body now =
     (case json_get body (ascii ''commitMessage'') of
        JStr m \<Rightarrow>
          if trim m \<noteq> [] then take 250 (trim m)
          else ascii ''chore: update card preview '' @ now
      | _ \<Rightarrow> ascii ''chore: update card preview '' @ now)"

definition published :: "PreviewBranchResult \<Rightarrow> FieldValueMap \<Rightarrow> http_response" where
  "published r app =
     JsonResponse (JObj
       [(ascii ''branch'', JStr (branchName r)),
        (ascii ''branchUrl'', JStr (branchUrl r)),
        (ascii ''vercelImportUrl'', JStr (vercelImportUrl r)),
        (ascii ''appliedFields'', JObj (map (\<lambda>(k, v). (k, JStr v)) app))])"

text \<open>
  The handler of \<open>POST /github/preview\<close>. \<open>reqBody\<close> is what \<open>c.req.json()\<close> returns
  (\<open>None\<close> when it throws), \<open>template\<close> what reading the template file returns
  (\<open>None\<close> when it throws). Reading \<open>body.fields\<close> of \<open>null\<close> throws a \<open>TypeError\<close> that
  the handler does not catch.
\<close>

definition preview_handler ::
  "runtime \<Rightarrow> RepoConfig \<Rightarrow> (nat \<Rightarrow> fetch_outcome) \<Rightarrow> jsstring option \<Rightarrow> json option \<Rightarrow>
     jsstring \<Rightarrow> jsstring \<Rightarrow> http_response io" where
  "preview_handler rt cfg net template reqBody uuid now =
     (if owner cfg = [] \<or> repo cfg = [] \<or> pat cfg = [] then
        bind_io (log_io (ConsoleError (ascii ''GitHub repository configuration is incomplete.'') []))
          (\<lambda>_. return_io (TextResponse (ascii ''GitHub repository not configured.'') 500))
      else
        (case reqBody of
           None \<Rightarrow> return_io (TextResponse (ascii ''Invalid JSON body.'') 400)
         | Some body \<Rightarrow>
             (case property body (ascii ''fields'') of
                Inl e \<Rightarrow> throw_io e
              | Inr rawFields \<Rightarrow>
               (let normalizedFields = normalizeFieldValues rawFields
                in if length normalizedFields = 0 then
                     return_io (TextResponse (ascii ''No valid fields provided.'') 400)
                   else
                     (\<lambda>w0.
                        let w = w0\<lparr>template_reads := Suc (template_reads w0)\<rparr>
                        in case template of
                             None \<Rightarrow>
                               bind_io (log_io (ConsoleError
                                          (ascii ''Failed to read preview template from disk.'') []))
                                 (\<lambda>_. return_io (TextResponse (ascii ''Unable to load template file.'') 500)) w
                           | Some templateHtml \<Rightarrow>
                               (let res = applyFieldsToTemplate rt templateHtml normalizedFields;
                                    commitMessage = commit_message body now
                                in case pushPreviewBranch rt cfg net uuid (html res) commitMessage w of
                                     (Inr r, w') \<Rightarrow> (Inr (published r (applied res)), w')
                                   | (Inl e, w') \<Rightarrow>
                                       bind_io (log_io (ConsoleError
                                                  (ascii ''[/github/preview] Failed to publish preview.'')
                                                  [LError e]))
                                         (\<lambda>_. return_io (TextResponse (ascii ''Failed to publish preview.'') 500))
                                         w'))))))"

section \<open>Notions used in the statements\<close>

text \<open>The maximal runs of non-whitespace code units of a string, in order.\<close>

function ws_words :: "jsstring \<Rightarrow> jsstring list" where
  "ws_words s =
     (case dropWhile is_ws s of
        [] \<Rightarrow> []
      | c # cs \<Rightarrow>
          takeWhile (\<lambda>x. \<not> is_ws x) (c # cs) # ws_words (dropWhile (\<lambda>x. \<not> is_ws x) cs))"
  by pat_completeness auto
termination
proof (relation "measure length", goal_cases)
  case 1
  show ?case by simp
next
  case (2 s c cs)
  have "length (dropWhile (\<lambda>x. \<not> is_ws x) cs) \<le> length cs"
    by (rule length_dropWhile_le)
  moreover have "length (c # cs) \<le> length s"
    using length_dropWhile_le [of is_ws s] 2 by simp
  ultimately show ?case by simp
qed

declare ws_words.simps [simp del]

definition word_like :: "jsstring \<Rightarrow> bool" where
  "word_like w = (w \<noteq> [] \<and> (\<forall>c \<in> set w. \<not> is_ws c))"

text \<open>One step of a loop that assigns \<open>r[k] = f x\<close> for the keys that satisfy \<open>P\<close>.\<close>

definition keep :: "('k \<Rightarrow> bool) \<Rightarrow> ('v \<Rightarrow> 'w) \<Rightarrow> ('k \<times> 'v) \<Rightarrow> ('k \<times> 'w) list \<Rightarrow> ('k \<times> 'w) list" where
  "keep P f = (\<lambda>(k, x) r. if P k then AList.update k (f x) r else r)"

definition registry_ids :: "jsstring set" where
  "registry_ids = set (map cfg_id TEMPLATE_FIELD_CONFIGS)"

text \<open>A field of the document as the derived-title step reads it back.\<close>

definition read_back :: "node \<Rightarrow> string \<Rightarrow> jsstring" where
  "read_back document fid =
     (case TEMPLATE_FIELD_MAP (ascii fid) of
        None \<Rightarrow> []
      | Some config \<Rightarrow> sanitizeFieldValue (JStr (readTemplateField document config)))"

definition document_title :: "node \<Rightarrow> jsstring option" where
  "document_title document =
     (case querySelector document (ascii ''title'') of
        None \<Rightarrow> None
      | Some p \<Rightarrow> map_option textContent (node_at p document))"

text \<open>
  What the statements about the title ask of a case mapping: it maps no non-empty string
  to the empty one and it leaves whitespace at either end as it is. The Unicode case
  mappings do both.
\<close>

definition case_mapping :: "(jsstring \<Rightarrow> jsstring) \<Rightarrow> bool" where
  "case_mapping g =
     (g [] = [] \<and>
      (\<forall>s. s \<noteq> [] \<longrightarrow>
         g s \<noteq> [] \<and> is_ws (hd (g s)) = is_ws (hd s) \<and> is_ws (last (g s)) = is_ws (last s)))"

text \<open>The requests an action sends are appended to those sent before, and all lie in \<open>S\<close>.\<close>

definition sends :: "'a io \<Rightarrow> request set \<Rightarrow> bool" where
  "sends m S = (\<forall>w. \<exists>new. sent (snd (m w)) = sent w @ new \<and> set new \<subseteq> S)"

section \<open>Example data\<close>

definition upper_ascii :: "jschar \<Rightarrow> jschar" where
  "upper_ascii c =
     (case map_of (zip (ascii ''abcdefghijklmnopqrstuvwxyz'') (ascii ''ABCDEFGHIJKLMNOPQRSTUVWXYZ'')) c of
        Some u \<Rightarrow> u | None \<Rightarrow> c)"

definition lower_ascii :: "jschar \<Rightarrow> jschar" where
  "lower_ascii c =
     (case map_of (zip (ascii ''ABCDEFGHIJKLMNOPQRSTUVWXYZ'') (ascii ''abcdefghijklmnopqrstuvwxyz'')) c of
        Some l \<Rightarrow> l | None \<Rightarrow> c)"

definition example_runtime :: "node \<Rightarrow> runtime" where
  "example_runtime d =
     \<lparr>toUpperCase = map upper_ascii, toLowerCase = map lower_ascii,
      parseHTML = (\<lambda>_. d), outerHTML = (\<lambda>_. []),
      encodeURIComponent = (\<lambda>s. s), base64_utf8 = (\<lambda>s. s)\<rparr>"

definition span :: "string \<Rightarrow> string \<Rightarrow> node" where
  "span cls txt = Element (ascii ''span'') [(ascii ''class'', ascii cls)] [Text (ascii txt)]"

definition text_only :: "jsstring \<Rightarrow> node list" where
  "text_only s = (if s = [] then [] else [Text s])"

definition card_with :: "jsstring \<Rightarrow> jsstring \<Rightarrow> jsstring \<Rightarrow> node" where
  "card_with t f l =
     Element (ascii ''html'') []
       [Element (ascii ''head'') [] [Element (ascii ''title'') [] (text_only t)],
        Element (ascii ''body'') []
          [Element (ascii ''div'') [(ascii ''class'', ascii ''card'')]
             [Element (ascii ''span'') [(ascii ''class'', ascii ''card__person-first'')] (text_only f),
              Element (ascii ''span'') [(ascii ''class'', ascii ''card__person-last'')] (text_only l),
              span ''card__title'' ''Engineer'']]]"

definition example_document :: node where
  "example_document = card_with (ascii ''Card'') (ascii ''Jonathan'') (ascii ''Goon'')"

definition first_name_only :: FieldValueMap where
  "first_name_only = [(ascii ''personFirst'', ascii ''patrick''), (ascii ''personLast'', [])]"

definition both_names :: FieldValueMap where
  "both_names = [(ascii ''personFirst'', ascii ''patrick''), (ascii ''personLast'', ascii ''BATEMAN'')]"

definition no_names :: FieldValueMap where
  "no_names = [(ascii ''personFirst'', []), (ascii ''personLast'', ascii ''  '')]"

definition example_config :: RepoConfig where
  "example_config =
     \<lparr>owner = ascii ''jish'', repo = ascii ''card'', baseBranch = ascii ''main'',
      pat = ascii ''secret'', commitAuthorName = ascii ''Card Automation'',
      commitAuthorEmail = ascii ''card-automation@jgoon.com'',
      targetFilePath = ascii ''index.html''\<rparr>"

definition example_world :: world where
  "example_world = \<lparr>sent = [], template_reads = 0, logs = []\<rparr>"

definition answer :: "nat \<Rightarrow> json option \<Rightarrow> response" where
  "answer code j = \<lparr>status = code, body_text = [], body_json = j\<rparr>"

definition reply :: "nat \<Rightarrow> json option \<Rightarrow> fetch_outcome" where
  "reply code j = Responded (answer code j)"

definition sha_payload :: json where
  "sha_payload = JObj [(ascii ''sha'', JStr (ascii ''abc123'')),
     (ascii ''object'', JObj [(ascii ''sha'', JStr (ascii ''abc123''))])]"

text \<open>A network that answers the calls in order with the outcomes of a list.\<close>

definition scripted :: "fetch_outcome list \<Rightarrow> nat \<Rightarrow> fetch_outcome" where
  "scripted outcomes n = (if n < length outcomes then outcomes ! n else NetworkFailure)"

definition example_fields :: json where
  "example_fields =
     JObj [(ascii ''personFirst'', JStr (ascii ''  patrick  j '')),
           (ascii ''nickname'', JStr (ascii ''Pat'')),
           (ascii ''title'', JNum 0x3FF0000000000000)]"

definition example_values :: FieldValueMap where
  "example_values =
     [(ascii ''personFirst'', ascii ''patrick''), (ascii ''nickname'', ascii ''pat''),
      (ascii ''personLast'', ascii ''BATEMAN'')]"

definition example_init :: RequestInit where
  "example_init =
     \<lparr>init_method = ascii ''GET'',
      init_headers = [(ascii ''Accept'', ascii ''text/plain''), (ascii ''X-Trace'', ascii ''1'')],
      init_body = None\<rparr>"

definition example_uuid :: jsstring where
  "example_uuid = ascii ''1b4e28ba-2fa1-41d2-883f-0016d3cca427''"

definition net_readme_404 :: "nat \<Rightarrow> fetch_outcome" where
  "net_readme_404 =
     scripted [Responded (answer 200 (Some sha_payload)), Responded (answer 201 None),
               Responded (answer 404 None), Responded (answer 201 None)]"

definition net_delete_500 :: "nat \<Rightarrow> fetch_outcome" where
  "net_delete_500 =
     scripted [Responded (answer 200 (Some sha_payload)), Responded (answer 201 None),
               Responded (answer 200 (Some sha_payload)), Responded (answer 500 None),
               Responded (answer 201 None)]"

definition net_readme_no_sha :: "nat \<Rightarrow> fetch_outcome" where
  "net_readme_no_sha =
     scripted [Responded (answer 200 (Some sha_payload)), Responded (answer 201 None),
               Responded (answer 200 (Some (JObj [(ascii ''name'', JStr (ascii ''README.md''))]))),
               Responded (answer 201 None)]"

definition example_uuid_2 :: jsstring where
  "example_uuid_2 = ascii ''9f0c7d55-6c1e-4e0a-b7a4-52b1f3a7c001''"

definition example_body :: json where
  "example_body =
     JObj [(ascii ''fields'',
            JObj [(ascii ''personFirst'', JStr (ascii ''patrick'')),
                  (ascii ''personLast'', JStr (ascii ''BATEMAN''))]),
           (ascii ''commitMessage'', JStr (ascii ''  chore: personalize card  ''))]"

definition blank_message_body :: json where
  "blank_message_body =
     JObj [(ascii ''fields'', JObj [(ascii ''personFirst'', JStr (ascii ''patrick''))]),
           (ascii ''commitMessage'', JStr (ascii ''   ''))]"

definition example_now :: jsstring where
  "example_now = ascii ''2025-01-01T00:00:00.000Z''"

definition empty_fields_body :: json where
  "empty_fields_body = JObj [(ascii ''fields'', JObj [])]"

text \<open>
  Publishes in which a request of the README step gets no answer at all (the fetch
  rejects), or in which the README lookup is answered with a success whose body is not
  JSON. Each script ends with the success that would answer the content commit.
\<close>

definition net_delete_rejected :: "nat \<Rightarrow> fetch_outcome" where
  "net_delete_rejected =
     scripted [Responded (answer 200 (Some sha_payload)), Responded (answer 201 None),
               Responded (answer 200 (Some sha_payload)), NetworkFailure,
               Responded (answer 201 None)]"

definition net_readme_rejected :: "nat \<Rightarrow> fetch_outcome" where
  "net_readme_rejected =
     scripted [Responded (answer 200 (Some sha_payload)), Responded (answer 201 None),
               NetworkFailure, Responded (answer 201 None)]"

definition net_readme_not_json :: "nat \<Rightarrow> fetch_outcome" where
  "net_readme_not_json =
     scripted [Responded (answer 200 (Some sha_payload)), Responded (answer 201 None),
               Responded (answer 200 None), Responded (answer 201 None)]"


section \<open>Whitespace normalisation\<close>

lemma is_ws_space [simp]: "is_ws 0x20"
  by (simp add: is_ws_def)

lemma trim_Nil [simp]: "trim [] = []"
  by (simp add: trim_def)

lemma replace_ws_runs_word:
  "replace_ws_runs s = takeWhile (\<lambda>x. \<not> is_ws x) s @ replace_ws_runs (dropWhile (\<lambda>x. \<not> is_ws x) s)"
  by (induction s) auto

lemma replace_ws_runs_hd: "s \<noteq> [] \<Longrightarrow> \<not> is_ws (hd s) \<Longrightarrow> \<not> is_ws (hd (replace_ws_runs s))"
  by (cases s) auto

lemma replace_nonempty: "s \<noteq> [] \<Longrightarrow> replace_ws_runs s \<noteq> []"
  by (cases s) auto

lemma dropWhile_id_hd: "s = [] \<or> \<not> P (hd s) \<Longrightarrow> dropWhile P s = s"
  by (cases s) auto

lemma hd_dropWhile_ws: "dropWhile is_ws s \<noteq> [] \<Longrightarrow> \<not> is_ws (hd (dropWhile is_ws s))"
  by (rule hd_dropWhile)

lemma replace_dropWhile_nows:
  "dropWhile is_ws (replace_ws_runs (dropWhile is_ws s)) = replace_ws_runs (dropWhile is_ws s)"
proof (cases "dropWhile is_ws s = []")
  case True then show ?thesis by (simp del: dropWhile_eq_Nil_conv)
next
  case False
  then have "\<not> is_ws (hd (dropWhile is_ws s))" by (rule hd_dropWhile)
  with False have "\<not> is_ws (hd (replace_ws_runs (dropWhile is_ws s)))"
    by (rule replace_ws_runs_hd)
  then show ?thesis by (intro dropWhile_id_hd) simp
qed

lemma drop_replace: "dropWhile is_ws (replace_ws_runs s) = replace_ws_runs (dropWhile is_ws s)"
proof (cases s)
  case Nil then show ?thesis by simp
next
  case (Cons c cs)
  show ?thesis
  proof (cases "is_ws c")
    case True
    with Cons show ?thesis using replace_dropWhile_nows [of cs] by (simp add: is_ws_space)
  next
    case False
    with Cons show ?thesis by simp
  qed
qed

lemma ws_words_Nil: "dropWhile is_ws s = [] \<Longrightarrow> ws_words s = []"
  by (subst ws_words.simps) (simp only: list.case)

lemma ws_words_Cons: "dropWhile is_ws s = c # cs \<Longrightarrow>
  ws_words s = takeWhile (\<lambda>x. \<not> is_ws x) (c # cs) # ws_words (dropWhile (\<lambda>x. \<not> is_ws x) cs)"
  by (subst ws_words.simps) (simp only: list.case)

lemma ws_words_empty: "ws_words [] = []"
  by (simp add: ws_words_Nil)

lemma ws_words_eq_Nil: "ws_words s = [] \<longleftrightarrow> (\<forall>c \<in> set s. is_ws c)"
proof (cases "dropWhile is_ws s")
  case Nil
  then show ?thesis by (simp add: ws_words_Nil)
next
  case (Cons c cs)
  then have "dropWhile is_ws s \<noteq> []" by simp
  then have "\<not> (\<forall>c \<in> set s. is_ws c)" by simp
  then show ?thesis by (simp add: ws_words_Cons [OF Cons])
qed

lemma ws_words_word_like: "\<forall>w \<in> set (ws_words s). word_like w"
proof (induction s rule: ws_words.induct)
  case (1 s)
  show ?case
  proof (cases "dropWhile is_ws s")
    case Nil
    then show ?thesis by (simp only: ws_words_Nil) simp
  next
    case (Cons c cs)
    then have "\<not> is_ws c" using hd_dropWhile [of is_ws s] by simp
    then have "word_like (takeWhile (\<lambda>x. \<not> is_ws x) (c # cs))"
      by (auto simp: word_like_def dest: set_takeWhileD)
    with 1 [OF Cons] show ?thesis
      by (simp only: ws_words_Cons [OF Cons]) simp
  qed
qed

lemma js_join_Cons: "ws \<noteq> [] \<Longrightarrow> js_join sep (w # ws) = w @ sep @ js_join sep ws"
  by (cases ws) auto

lemma js_join_ends:
  "ws \<noteq> [] \<Longrightarrow> \<forall>w \<in> set ws. word_like w \<Longrightarrow>
     js_join [0x20] ws \<noteq> [] \<and> \<not> is_ws (hd (js_join [0x20] ws)) \<and> \<not> is_ws (last (js_join [0x20] ws))"
proof (induction ws)
  case Nil then show ?case by simp
next
  case (Cons w ws)
  show ?case
  proof (cases "ws = []")
    case True
    with Cons.prems show ?thesis by (auto simp: word_like_def)
  next
    case False
    with Cons show ?thesis by (auto simp: word_like_def js_join_Cons)
  qed
qed

text \<open>Leading whitespace removed from the replaced string: the words, each followed by
  one space when more input follows.\<close>

lemma lead_replace:
  "dropWhile is_ws (replace_ws_runs s) =
     (if ws_words s = [] then []
      else js_join [0x20] (ws_words s) @ (if is_ws (last s) then [0x20] else []))"
proof (induction s rule: ws_words.induct)
  case (1 s)
  show ?case
  proof (cases "dropWhile is_ws s")
    case Nil
    then show ?thesis by (simp only: ws_words_Nil drop_replace) simp
  next
    case (Cons c cs)
    let ?nw = "\<lambda>x. \<not> is_ws x"
    let ?w = "takeWhile ?nw (c # cs)" and ?rest = "dropWhile ?nw cs"
    have c: "\<not> is_ws c" using Cons hd_dropWhile [of is_ws s] by simp
    have last: "last s = last (c # cs)"
      by (metis Cons append_self_conv last_appendR list.distinct(1) takeWhile_dropWhile_id)
    have ih: "dropWhile is_ws (replace_ws_runs ?rest) =
       (if ws_words ?rest = [] then []
        else js_join [0x20] (ws_words ?rest) @ (if is_ws (last ?rest) then [0x20] else []))"
      by (rule 1 [OF Cons])
    have split: "dropWhile is_ws (replace_ws_runs s) = ?w @ replace_ws_runs ?rest"
      using c by (simp add: drop_replace Cons) (metis replace_ws_runs_word)
    have ww: "ws_words s = ?w # ws_words ?rest"
      by (rule ws_words_Cons [OF Cons])
    show ?thesis
    proof (cases ?rest)
      case Nil
      have e: "ws_words ?rest = []" by (simp only: Nil ws_words_empty)
      have d: "dropWhile is_ws (replace_ws_runs s) = ?w"
        using split by (simp only: Nil replace_ws_runs.simps append_Nil2)
      from Nil have "\<forall>x \<in> set cs. \<not> is_ws x" by simp
      with c have "\<forall>x \<in> set (c # cs). \<not> is_ws x" by simp
      then have "\<not> is_ws (last (c # cs))" using last_in_set [of "c # cs"] by blast
      then have nl: "\<not> is_ws (last s)" by (simp add: last)
      show ?thesis by (simp only: ww e d nl js_join.simps if_False append_Nil2 list.distinct)
    next
      case rest: (Cons r rs)
      have r: "is_ws r" using rest hd_dropWhile [of ?nw cs] by simp
      have last': "last s = last ?rest"
        using last rest
        by (metis last_ConsR last_appendR list.distinct(1) takeWhile_dropWhile_id takeWhile_eq_Nil_iff append_Nil)
      have "dropWhile is_ws (replace_ws_runs ?rest) = replace_ws_runs (dropWhile is_ws rs)"
        using r by (simp add: drop_replace rest)
      moreover have "replace_ws_runs ?rest = 0x20 # replace_ws_runs (dropWhile is_ws rs)"
        using r by (simp add: rest)
      ultimately have X: "replace_ws_runs ?rest = 0x20 # dropWhile is_ws (replace_ws_runs ?rest)"
        by simp
      show ?thesis
      proof (cases "ws_words ?rest = []")
        case True
        then have "is_ws (last ?rest)"
          using rest by (simp only: ws_words_eq_Nil) (metis last_in_set list.distinct(1))
        with True show ?thesis
          using split X ih last' by (simp add: ww)
      next
        case False
        then show ?thesis
          using split X ih last' by (simp add: ww js_join_Cons)
      qed
    qed
  qed
qed

lemma trim_alt: "trim s = rev (dropWhile is_ws (rev (dropWhile is_ws s)))"
  by (simp add: trim_def)

lemma rev_trim_id: "s = [] \<or> \<not> is_ws (last s) \<Longrightarrow> rev (dropWhile is_ws (rev s)) = s"
  by (cases s rule: rev_cases) auto

lemma sanitize_words: "trim (replace_ws_runs s) = js_join [0x20] (ws_words s)"
proof (cases "ws_words s = []")
  case True
  then show ?thesis by (simp add: trim_def lead_replace)
next
  case False
  have e: "js_join [0x20] (ws_words s) = [] \<or> \<not> is_ws (last (js_join [0x20] (ws_words s)))"
    using js_join_ends [OF False ws_words_word_like] by simp
  show ?thesis
    using False rev_trim_id [OF e] by (simp add: trim_def lead_replace is_ws_space)
qed

lemma replace_word_append:
  "\<forall>c \<in> set w. \<not> is_ws c \<Longrightarrow> replace_ws_runs (w @ t) = w @ replace_ws_runs t"
  by (induction w) auto

lemma replace_normal:
  "\<forall>w \<in> set ws. word_like w \<Longrightarrow> replace_ws_runs (js_join [0x20] ws) = js_join [0x20] ws"
proof (induction ws)
  case Nil then show ?case by simp
next
  case (Cons w ws)
  have w: "\<forall>c \<in> set w. \<not> is_ws c"
    using Cons.prems by (simp add: word_like_def)
  show ?case
  proof (cases "ws = []")
    case True
    then show ?thesis
      using replace_word_append [OF w, of "[]"] by simp
  next
    case False
    have "\<not> is_ws (hd (js_join [0x20] ws))" "js_join [0x20] ws \<noteq> []"
      using js_join_ends [OF False] Cons.prems by simp_all
    then have "dropWhile is_ws (js_join [0x20] ws) = js_join [0x20] ws"
      by (intro dropWhile_id_hd) simp
    then show ?thesis
      using False Cons replace_word_append [OF w, of "0x20 # js_join [0x20] ws"]
      by (simp add: js_join_Cons is_ws_space)
  qed
qed

lemma trim_normal:
  "\<forall>w \<in> set ws. word_like w \<Longrightarrow> trim (js_join [0x20] ws) = js_join [0x20] ws"
proof (cases "ws = []")
  case True then show ?thesis by (simp add: trim_def)
next
  case False
  assume a: "\<forall>w \<in> set ws. word_like w"
  from js_join_ends [OF False a] show ?thesis
    by (simp add: trim_def dropWhile_id_hd rev_trim_id)
qed

lemma sanitize_idem: "trim (replace_ws_runs (trim (replace_ws_runs s))) = trim (replace_ws_runs s)"
  by (simp add: sanitize_words [of s] replace_normal trim_normal ws_words_word_like)


text \<open>
  C5. \<open>sanitizeFieldValue\<close> returns the empty string for a value that is not a string;
  for a string it returns the maximal runs of non-whitespace code units of the input, in
  order and separated by single spaces, so every run of whitespace has become one space
  and none is left at either end. Sanitizing the result again changes nothing.
\<close>

theorem sanitizeFieldValue_collapses_and_is_idempotent:
  "sanitizeFieldValue v =
     (case v of JStr s \<Rightarrow> js_join [0x20] (ws_words s) | _ \<Rightarrow> []) \<and>
   sanitizeFieldValue (JStr (sanitizeFieldValue v)) = sanitizeFieldValue v"
proof
  show "sanitizeFieldValue v = (case v of JStr s \<Rightarrow> js_join [0x20] (ws_words s) | _ \<Rightarrow> [])"
    by (cases v) (simp_all add: sanitizeFieldValue_def sanitize_words)
  show "sanitizeFieldValue (JStr (sanitizeFieldValue v)) = sanitizeFieldValue v"
    by (cases v) (simp_all add: sanitizeFieldValue_def sanitize_idem)
qed

section \<open>Registry filtering\<close>

lemma update_cases:
  "(k', y) \<in> set (AList.update k v al) \<Longrightarrow> (k', y) = (k, v) \<or> (k', y) \<in> set al"
  by (induction al) (auto split: if_splits)

lemma registry_dom: "TEMPLATE_FIELD_MAP k \<noteq> None \<longleftrightarrow> k \<in> registry_ids"
proof -
  have "dom TEMPLATE_FIELD_MAP = set (map cfg_id TEMPLATE_FIELD_CONFIGS)"
    unfolding TEMPLATE_FIELD_MAP_def
    by (simp only: dom_map_of_conv_image_fst set_rev set_map image_image fst_conv)
  then show ?thesis by (auto simp: dom_def registry_ids_def)
qed

lemma fold_keep_keys:
  "fst ` set (fold (keep P f) es acc) = fst ` set acc \<union> {k \<in> fst ` set es. P k}"
proof (induction es arbitrary: acc)
  case Nil then show ?case by simp
next
  case (Cons e es)
  obtain k x where e: "e = (k, x)" by (cases e)
  have "fst ` set (keep P f e acc) = (if P k then insert k (fst ` set acc) else fst ` set acc)"
    by (simp add: e keep_def dom_update)
  moreover have "fst ` set (fold (keep P f) (e # es) acc) =
      fst ` set (keep P f e acc) \<union> {k \<in> fst ` set es. P k}"
    using Cons [of "keep P f e acc"] by simp
  ultimately show ?case by (auto simp: e)
qed

lemma fold_keep_values:
  "(k, y) \<in> set (fold (keep P f) es acc) \<Longrightarrow>
     (k, y) \<in> set acc \<or> (\<exists>x. (k, x) \<in> set es \<and> y = f x)"
proof (induction es arbitrary: acc)
  case Nil then show ?case by simp
next
  case (Cons e es)
  obtain k' x where e: "e = (k', x)" by (cases e)
  from Cons.prems have "(k, y) \<in> set (fold (keep P f) es (keep P f e acc))" by simp
  from Cons.IH [OF this] show ?case
    by (auto simp: e keep_def dest: update_cases split: if_splits)
qed

lemma fold_keep_distinct:
  "distinct (map fst acc) \<Longrightarrow> distinct (map fst (fold (keep P f) es acc))"
proof (induction es arbitrary: acc)
  case Nil then show ?case by simp
next
  case (Cons e es)
  obtain k x where e: "e = (k, x)" by (cases e)
  show ?case using Cons by (simp add: e keep_def distinct_update)
qed

lemma registry_None: "TEMPLATE_FIELD_MAP k = None \<longleftrightarrow> k \<notin> registry_ids"
  using registry_dom [of k] by blast

lemma normalize_fold:
  "normalizeFieldValues v =
     (if \<not> truthy v \<or> typeof v \<noteq> TObject then []
      else fold (keep (\<lambda>k. k \<in> registry_ids) sanitizeFieldValue) (object_entries v) [])"
proof -
  have "(\<lambda>(key, rawValue) result.
           if TEMPLATE_FIELD_MAP key = None then result
           else AList.update key (sanitizeFieldValue rawValue) result) =
        keep (\<lambda>k. k \<in> registry_ids) sanitizeFieldValue"
    by (auto simp: keep_def fun_eq_iff registry_None)
  then show ?thesis by (simp add: normalizeFieldValues_def)
qed

lemma write_fields_applied:
  "snd (fold (\<lambda>(fieldId, v) (document, applied).
             case TEMPLATE_FIELD_MAP fieldId of
               None \<Rightarrow> (document, applied)
             | Some config \<Rightarrow>
                 (writeTemplateField document config v, AList.update fieldId v applied))
          values (doc, acc))
   = fold (keep (\<lambda>k. k \<in> registry_ids) (\<lambda>v. v)) values acc"
proof (induction "values" arbitrary: doc acc)
  case Nil then show ?case by simp
next
  case (Cons e es)
  obtain k x where e: "e = (k, x)" by (cases e)
  show ?case
  proof (cases "TEMPLATE_FIELD_MAP k")
    case None
    then show ?thesis using registry_None [of k] by (simp add: e keep_def Cons)
  next
    case (Some config)
    then show ?thesis using registry_None [of k] by (simp add: e keep_def Cons)
  qed
qed


lemma fold_keep_subset:
  "set (fold (keep P (\<lambda>v. v)) es acc) \<subseteq> set acc \<union> set es"
  using fold_keep_values [of _ _ P "\<lambda>v. v" es acc] by auto

lemma update_fresh: "k \<notin> fst ` set al \<Longrightarrow> AList.update k v al = al @ [(k, v)]"
  by (induction al) auto

lemma fold_keep_filter:
  "distinct (map fst es) \<Longrightarrow> fst ` set acc \<inter> fst ` set es = {} \<Longrightarrow>
     fold (keep P (\<lambda>v. v)) es acc = acc @ filter (\<lambda>(k, v). P k) es"
proof (induction es arbitrary: acc)
  case Nil then show ?case by simp
next
  case (Cons e es)
  obtain k x where e: "e = (k, x)" by (cases e)
  have fresh: "k \<notin> fst ` set acc" using Cons.prems(2) by (auto simp: e)
  have step: "keep P (\<lambda>v. v) (k, x) acc = (if P k then acc @ [(k, x)] else acc)"
    by (simp add: keep_def update_fresh [OF fresh])
  have d: "distinct (map fst es)" using Cons.prems(1) by simp
  have "k \<notin> fst ` set es" using Cons.prems(1) by (simp add: e)
  then have "fst ` set (keep P (\<lambda>v. v) (k, x) acc) \<inter> fst ` set es = {}"
    using Cons.prems(2) unfolding step by (auto simp: e)
  from Cons.IH [OF d this] show ?case unfolding e by (simp add: step)
qed

lemma decimal_hd: "decimal n \<noteq> [] \<and> hd (decimal n) < 58"
proof (induction n rule: decimal.induct)
  case (1 n)
  show ?case
  proof (cases "n < 10")
    case True then show ?thesis by (simp add: decimal.simps [of n])
  next
    case False
    with 1 show ?thesis by (simp add: decimal.simps [of n])
  qed
qed

lemma registry_ids_eval:
  "registry_ids = set (map ascii [''phone'', ''companyWordLeft'', ''companyAmpersand'',
     ''companyWordRight'', ''companyTagline'', ''personFirst'', ''personLast'', ''title'',
     ''address'', ''faxLabel'', ''faxValue'', ''telexLabel'', ''telexValue''])"
  by (simp add: registry_ids_def TEMPLATE_FIELD_CONFIGS_def field_def)

lemma registry_ids_hd: "k \<in> registry_ids \<Longrightarrow> 58 \<le> hd k"
  by (auto simp: registry_ids_eval ascii_def)

lemma decimal_not_id: "decimal n \<notin> registry_ids"
  using decimal_hd [of n] registry_ids_hd [of "decimal n"] by auto

lemma normalize_array: "normalizeFieldValues (JArr xs) = []"
proof -
  have "fst ` set (normalizeFieldValues (JArr xs)) = {}"
    by (auto simp: normalize_fold fold_keep_keys decimal_not_id dest!: set_zip_leftD)
  then show ?thesis by simp
qed

text \<open>
  C4. Whatever the raw input, every key of the map that \<open>normalizeFieldValues\<close> returns
  is an id of the registry, and every value it holds is \<open>sanitizeFieldValue\<close> of the
  raw value that the input has under that key. For an object the keys returned are
  exactly the keys of the input that the registry knows, so the others are dropped; an
  input that is not an object (an array included) gives the empty map.
\<close>

theorem normalizeFieldValues_registry:
  "fst ` set (normalizeFieldValues v) \<subseteq> registry_ids \<and>
   (\<forall>(k, x) \<in> set (normalizeFieldValues v).
      \<exists>raw. (k, raw) \<in> set (object_entries v) \<and> x = sanitizeFieldValue raw) \<and>
   (\<forall>kvs. v = JObj kvs \<longrightarrow>
      fst ` set (normalizeFieldValues v) = {k \<in> fst ` set kvs. k \<in> registry_ids}) \<and>
   ((\<forall>kvs. v \<noteq> JObj kvs) \<longrightarrow> normalizeFieldValues v = [])"
proof (intro conjI)
  show "fst ` set (normalizeFieldValues v) \<subseteq> registry_ids"
  proof
    fix k assume "k \<in> fst ` set (normalizeFieldValues v)"
    then have "TEMPLATE_FIELD_MAP k \<noteq> None"
      by (simp only: normalize_fold fold_keep_keys registry_dom split: if_splits) auto
    then show "k \<in> registry_ids"
      by (simp only: registry_dom)
  qed
  show "\<forall>(k, x) \<in> set (normalizeFieldValues v).
      \<exists>raw. (k, raw) \<in> set (object_entries v) \<and> x = sanitizeFieldValue raw"
    unfolding normalize_fold by (auto dest: fold_keep_values)
  show "\<forall>kvs. v = JObj kvs \<longrightarrow>
      fst ` set (normalizeFieldValues v) = {k \<in> fst ` set kvs. k \<in> registry_ids}"
    by (simp add: normalize_fold fold_keep_keys)
  show "(\<forall>kvs. v \<noteq> JObj kvs) \<longrightarrow> normalizeFieldValues v = []"
  proof (cases v)
    case (JArr xs)
    then show ?thesis by (simp add: normalize_array)
  qed (simp_all add: normalizeFieldValues_def)
qed

lemma example_fields_normalized:
  "normalizeFieldValues example_fields =
     [(ascii ''personFirst'', ascii ''patrick j''), (ascii ''title'', [])]"
  by (simp add: example_fields_def normalizeFieldValues_def TEMPLATE_FIELD_MAP_def
      TEMPLATE_FIELD_CONFIGS_def field_def ascii_def sanitizeFieldValue_def trim_def is_ws_def)

theorem normalizeFieldValues_registry_witness:
  "fst ` set (normalizeFieldValues example_fields) \<subseteq> registry_ids \<and>
   (ascii ''personFirst'', ascii ''patrick j'') \<in> set (normalizeFieldValues example_fields) \<and>
   (ascii ''personFirst'', JStr (ascii ''  patrick  j '')) \<in> set (object_entries example_fields) \<and>
   ascii ''patrick j'' = sanitizeFieldValue (JStr (ascii ''  patrick  j '')) \<and>
   fst ` set (normalizeFieldValues example_fields) = {ascii ''personFirst'', ascii ''title''} \<and>
   normalizeFieldValues (JStr (ascii ''personFirst'')) = []"
  using normalizeFieldValues_registry [of example_fields]
    normalizeFieldValues_registry [of "JStr (ascii ''personFirst'')"]
  by (simp add: example_fields_normalized)
    (simp add: example_fields_def ascii_def sanitizeFieldValue_def trim_def is_ws_def)

lemma applied_fold:
  "applied (applyFieldsToTemplate rt templateHtml values) =
     fold (keep (\<lambda>k. k \<in> registry_ids) (\<lambda>v. v)) values []"
proof -
  have "applied (applyFieldsToTemplate rt templateHtml values) =
      snd (write_fields values (parseHTML rt templateHtml))"
    by (simp add: applyFieldsToTemplate_def applyFieldsToDocument_def split: prod.splits)
  also have "\<dots> = fold (keep (\<lambda>k. k \<in> registry_ids) (\<lambda>v. v)) values []"
    unfolding write_fields_def by (rule write_fields_applied)
  finally show ?thesis .
qed

text \<open>
  C3. The keys of \<open>applied\<close> are exactly the keys of the input values that the registry
  knows, each once, and each entry of \<open>applied\<close> is an entry of the input; when the keys
  of the input are distinct, as the properties of an object are, \<open>applied\<close> is the input
  with the unknown keys left out.
\<close>

theorem applied_is_input_restricted_to_registry:
  "fst ` set (applied (applyFieldsToTemplate rt templateHtml values)) =
     {k \<in> fst ` set values. k \<in> registry_ids} \<and>
   set (applied (applyFieldsToTemplate rt templateHtml values)) \<subseteq> set values \<and>
   distinct (map fst (applied (applyFieldsToTemplate rt templateHtml values))) \<and>
   (distinct (map fst values) \<longrightarrow>
      applied (applyFieldsToTemplate rt templateHtml values) =
        filter (\<lambda>(k, v). k \<in> registry_ids) values)"
proof (intro conjI impI)
  show "fst ` set (applied (applyFieldsToTemplate rt templateHtml values)) =
     {k \<in> fst ` set values. k \<in> registry_ids}"
    by (simp add: applied_fold fold_keep_keys)
  show "set (applied (applyFieldsToTemplate rt templateHtml values)) \<subseteq> set values"
    using fold_keep_subset [of _ "values" "[]"] by (simp add: applied_fold)
  show "distinct (map fst (applied (applyFieldsToTemplate rt templateHtml values)))"
    by (simp add: applied_fold fold_keep_distinct)
  assume "distinct (map fst values)"
  then show "applied (applyFieldsToTemplate rt templateHtml values) =
        filter (\<lambda>(k, v). k \<in> registry_ids) values"
    by (simp add: applied_fold fold_keep_filter)
qed

theorem applied_is_input_restricted_to_registry_witness:
  "distinct (map fst example_values) \<and>
   applied (applyFieldsToTemplate (example_runtime example_document) [] example_values) =
     [(ascii ''personFirst'', ascii ''patrick''), (ascii ''personLast'', ascii ''BATEMAN'')]"
  using applied_is_input_restricted_to_registry
    [of "example_runtime example_document" "[]" example_values]
  by (simp add: example_values_def registry_ids_eval ascii_def)


section \<open>GitHub client\<close>

lemma githubPatRequest_Responded:
  "pat cfg \<noteq> [] \<Longrightarrow> net (length (sent w)) = Responded r \<Longrightarrow>
     githubPatRequest cfg net path init w =
       (Inr r, w\<lparr>sent := sent w @ [pat_request cfg path init],
                 logs := logs w @ (if ok r then [] else [pat_failure_log path r])\<rparr>)"
  by (simp add: githubPatRequest_def Let_def)

lemma spread_map_of:
  "distinct (map fst ext) \<Longrightarrow> map_of (spread base ext) = map_of base ++ map_of ext"
  unfolding spread_def
proof (induction ext arbitrary: base)
  case Nil then show ?case by simp
next
  case (Cons e ext)
  obtain k v where e: "e = (k, v)" by (cases e)
  have none: "map_of ext k = None"
    using Cons.prems by (simp add: e map_of_eq_None_iff)
  have "map_of (fold (\<lambda>(k, v). AList.update k v) (e # ext) base) =
      (map_of base)(k \<mapsto> v) ++ map_of ext"
    using Cons by (simp add: e update_conv')
  also have "\<dots> = map_of base ++ map_of (e # ext)"
    using none by (auto simp: e map_add_def fun_eq_iff split: option.splits)
  finally show ?case .
qed

text \<open>
  C8. \<open>githubPatRequest\<close> fails without touching the network exactly when no token is
  configured, and then throws the configuration error. With a token it sends one request
  to the API host, with the method and body of the caller; its headers are the three fixed
  ones overridden and extended by the caller's. When the call is answered, the response
  is returned whatever its status, and a status that is not a success adds one console
  error that carries the status, the path and the response body.
\<close>

theorem githubPatRequest_contract:
  "((\<exists>e. githubPatRequest cfg net path init w = (Inl e, w)) \<longleftrightarrow> pat cfg = []) \<and>
   (pat cfg = [] \<longrightarrow>
      githubPatRequest cfg net path init w =
        (Inl (Error (ascii ''GitHub PAT is not configured.'')), w)) \<and>
   (pat cfg \<noteq> [] \<longrightarrow>
      sent (snd (githubPatRequest cfg net path init w)) =
        sent w @ [\<lparr>req_url = ascii ''https://api.github.com'' @ path,
                    req_method = init_method init,
                    req_headers = req_headers (pat_request cfg path init),
                    req_body = init_body init\<rparr>]) \<and>
   (distinct (map fst (init_headers init)) \<longrightarrow>
      map_of (req_headers (pat_request cfg path init)) =
        map_of [(ascii ''Accept'', ascii ''application/vnd.github+json''),
                (ascii ''Authorization'', ascii ''token '' @ pat cfg),
                (ascii ''X-GitHub-Api-Version'', ascii ''2022-11-28'')]
        ++ map_of (init_headers init)) \<and>
   (\<forall>r. pat cfg \<noteq> [] \<and> net (length (sent w)) = Responded r \<longrightarrow>
      fst (githubPatRequest cfg net path init w) = Inr r \<and>
      logs (snd (githubPatRequest cfg net path init w)) =
        logs w @ (if ok r then []
                  else [ConsoleError
                          (ascii ''GitHub PAT request failed: '' @ decimal (status r) @ [0x20] @ path)
                          [LString (body_text r)]]))"
proof (intro conjI impI allI)
  show "(\<exists>e. githubPatRequest cfg net path init w = (Inl e, w)) \<longleftrightarrow> pat cfg = []"
  proof
    assume "\<exists>e. githubPatRequest cfg net path init w = (Inl e, w)"
    then obtain e where e: "githubPatRequest cfg net path init w = (Inl e, w)" ..
    show "pat cfg = []"
    proof (rule ccontr)
      assume "pat cfg \<noteq> []"
      then have "length (sent (snd (githubPatRequest cfg net path init w))) = Suc (length (sent w))"
        by (simp add: githubPatRequest_def Let_def split: fetch_outcome.splits)
      with e show False by simp
    qed
  next
    assume "pat cfg = []"
    then show "\<exists>e. githubPatRequest cfg net path init w = (Inl e, w)"
      by (simp add: githubPatRequest_def)
  qed
next
  assume "pat cfg = []"
  then show "githubPatRequest cfg net path init w =
        (Inl (Error (ascii ''GitHub PAT is not configured.'')), w)"
    by (simp add: githubPatRequest_def)
next
  assume "pat cfg \<noteq> []"
  then show "sent (snd (githubPatRequest cfg net path init w)) =
        sent w @ [\<lparr>req_url = ascii ''https://api.github.com'' @ path,
                    req_method = init_method init,
                    req_headers = req_headers (pat_request cfg path init),
                    req_body = init_body init\<rparr>]"
    by (simp add: githubPatRequest_def Let_def pat_request_def split: fetch_outcome.splits)
next
  assume "distinct (map fst (init_headers init))"
  then show "map_of (req_headers (pat_request cfg path init)) =
        map_of [(ascii ''Accept'', ascii ''application/vnd.github+json''),
                (ascii ''Authorization'', ascii ''token '' @ pat cfg),
                (ascii ''X-GitHub-Api-Version'', ascii ''2022-11-28'')]
        ++ map_of (init_headers init)"
    by (simp only: pat_request_def request.simps spread_map_of GITHUB_API_VERSION_def)
next
  fix r assume a: "pat cfg \<noteq> [] \<and> net (length (sent w)) = Responded r"
  then show "fst (githubPatRequest cfg net path init w) = Inr r"
    by (simp add: githubPatRequest_Responded)
  from a show "logs (snd (githubPatRequest cfg net path init w)) =
        logs w @ (if ok r then []
                  else [ConsoleError
                          (ascii ''GitHub PAT request failed: '' @ decimal (status r) @ [0x20] @ path)
                          [LString (body_text r)]])"
    by (simp add: githubPatRequest_Responded pat_failure_log_def)
qed

theorem githubPatRequest_contract_witness:
  "githubPatRequest (example_config\<lparr>pat := []\<rparr>) (scripted []) (ascii ''/rate_limit'') example_init
      example_world =
     (Inl (Error (ascii ''GitHub PAT is not configured.'')), example_world) \<and>
   distinct (map fst (init_headers example_init)) \<and>
   map_of (req_headers (pat_request example_config (ascii ''/rate_limit'') example_init))
      (ascii ''Accept'') = Some (ascii ''text/plain'') \<and>
   map_of (req_headers (pat_request example_config (ascii ''/rate_limit'') example_init))
      (ascii ''Authorization'') = Some (ascii ''token secret'') \<and>
   pat example_config \<noteq> [] \<and>
   scripted [reply 404 None] (length (sent example_world)) = reply 404 None \<and>
   fst (githubPatRequest example_config (scripted [reply 404 None]) (ascii ''/rate_limit'')
          example_init example_world) =
     Inr (answer 404 None) \<and>
   logs (snd (githubPatRequest example_config (scripted [reply 404 None]) (ascii ''/rate_limit'')
                example_init example_world)) =
     [ConsoleError (ascii ''GitHub PAT request failed: 404 /rate_limit'') [LString []]]"
  using githubPatRequest_contract
      [of "example_config\<lparr>pat := []\<rparr>" "scripted []" "ascii ''/rate_limit''" example_init
          example_world]
    githubPatRequest_contract
      [of example_config "scripted [reply 404 None]" "ascii ''/rate_limit''" example_init
          example_world]
  by (simp add: example_config_def example_init_def example_world_def scripted_def reply_def
      ok_def answer_def ascii_def decimal.simps)


section \<open>README removal\<close>

lemma githubPatRequest_sent:
  "pat cfg \<noteq> [] \<Longrightarrow>
     sent (snd (githubPatRequest cfg net path init w)) = sent w @ [pat_request cfg path init]"
  by (simp add: githubPatRequest_def Let_def split: fetch_outcome.splits)

lemma bind_io_Inr: "m w = (Inr x, w') \<Longrightarrow> bind_io m f w = f x w'"
  by (simp add: bind_io_def)

lemma bind_io_Inl: "m w = (Inl e, w') \<Longrightarrow> bind_io m f w = (Inl e, w')"
  by (simp add: bind_io_def)

text \<open>The README step when the lookup is answered with a status that is not a success.\<close>

lemma removeReadme_get_failed:
  assumes "pat cfg \<noteq> []" "net (length (sent w)) = Responded r" "\<not> ok r"
  shows "removeReadmeFromBranch rt cfg net name w =
      (Inr (), w\<lparr>sent := sent w @ [pat_request cfg (readme_get_path rt cfg name) get_init],
                 logs := logs w @ pat_failure_log (readme_get_path rt cfg name) r #
                   (if status r = 404 then []
                    else [ConsoleWarn (ascii ''[/github/preview] Unable to load README metadata.'')
                            [LStatusBody (status r) (body_text r)]])\<rparr>)"
  using assms
  by (simp add: removeReadmeFromBranch_def bind_io_Inr [OF githubPatRequest_Responded]
      return_io_def log_io_def)

lemma removeReadme_no_sha:
  assumes "pat cfg \<noteq> []" "net (length (sent w)) = Responded r" "ok r"
    "body_json r = Some j" "\<not> truthy (json_get j (ascii ''sha''))"
  shows "removeReadmeFromBranch rt cfg net name w =
      (Inr (), w\<lparr>sent := sent w @ [pat_request cfg (readme_get_path rt cfg name) get_init],
                 logs := logs w @
                   [ConsoleWarn (ascii ''[/github/preview] README metadata missing SHA.'') []]\<rparr>)"
proof -
  have "status r \<noteq> 404" using assms(3) by (auto simp: ok_def)
  with assms show ?thesis
    by (simp add: removeReadmeFromBranch_def bind_io_Inr [OF githubPatRequest_Responded]
        log_io_def)
qed

lemma removeReadme_delete_failed:
  assumes "pat cfg \<noteq> []" "net (length (sent w)) = Responded r" "ok r"
    "body_json r = Some j" "truthy (json_get j (ascii ''sha''))"
    "net (Suc (length (sent w))) = Responded r'" "\<not> ok r'"
  shows "removeReadmeFromBranch rt cfg net name w =
      (Inr (), w\<lparr>sent := sent w @ [pat_request cfg (readme_get_path rt cfg name) get_init,
                     pat_request cfg (readme_delete_path rt cfg)
                       (readme_delete_init cfg name (json_get j (ascii ''sha'')))],
                 logs := logs w @ pat_failure_log (readme_delete_path rt cfg) r' #
                   (if status r' = 404 then []
                    else [ConsoleWarn (ascii ''[/github/preview] Failed to delete README.'')
                            [LStatusBody (status r') (body_text r')]])\<rparr>)"
proof -
  have "status r \<noteq> 404" using assms(3) by (auto simp: ok_def)
  with assms show ?thesis
    by (simp add: removeReadmeFromBranch_def bind_io_Inr [OF githubPatRequest_Responded]
        return_io_def log_io_def)
qed

text \<open>The publish up to the README step, when the base reference and the branch succeed.\<close>

lemma push_reaches_readme:
  assumes "owner cfg \<noteq> []" "repo cfg \<noteq> []" "pat cfg \<noteq> []"
    and "net (length (sent w)) = Responded r0" "ok r0" "body_json r0 = Some j0"
    and "truthy (json_get (json_get j0 (ascii ''object'')) (ascii ''sha''))"
    and "net (Suc (length (sent w))) = Responded r1" "ok r1"
  shows "pushPreviewBranch rt cfg net uuid content msg w =
      bind_io (removeReadmeFromBranch rt cfg net (ascii ''card-'' @ uuid))
        (\<lambda>_. commit_content rt cfg net (ascii ''card-'' @ uuid) content msg)
        (w\<lparr>sent := sent w @
              [pat_request cfg (base_ref_path cfg) get_init,
               pat_request cfg (repo_path cfg @ ascii ''/git/refs'')
                 (create_ref_init (ascii ''refs/heads/'' @ ascii ''card-'' @ uuid)
                    (json_get (json_get j0 (ascii ''object'')) (ascii ''sha'')))]\<rparr>)"
  using assms
  by (simp add: pushPreviewBranch_def bind_io_Inr [OF githubPatRequest_Responded] Let_def)

lemma commit_content_sent:
  "pat cfg \<noteq> [] \<Longrightarrow>
     sent (snd (commit_content rt cfg net name content msg w)) =
       sent w @ [pat_request cfg (update_path rt cfg) (update_init rt cfg name content msg)]"
  by (simp add: commit_content_def bind_io_def githubPatRequest_def Let_def log_io_def
      throw_io_def return_io_def split: fetch_outcome.splits)

lemma commit_content_ok:
  "pat cfg \<noteq> [] \<Longrightarrow> net (length (sent w)) = Responded r \<Longrightarrow> ok r \<Longrightarrow>
     fst (commit_content rt cfg net name content msg w) = Inr (branch_result rt cfg name)"
  by (simp add: commit_content_def bind_io_Inr [OF githubPatRequest_Responded] return_io_def)

text \<open>
  In a publish whose base reference and branch creation succeed, let the README lookup
  be answered with a status that is not a success (not-found included), or let it succeed
  with a hash and the deletion be answered with a status that is not a success (not-found
  included). Then the failure is logged, the publish goes on to the content commit, whose
  request is the last one sent, and the publish succeeds when that commit is answered with
  a success.
\<close>

lemma readme_status_failure_continues:
  assumes "owner cfg \<noteq> []" "repo cfg \<noteq> []" "pat cfg \<noteq> []"
    and "net (length (sent w)) = Responded baseResp" "ok baseResp" "body_json baseResp = Some baseData"
    and "truthy (json_get (json_get baseData (ascii ''object'')) (ascii ''sha''))"
    and "net (length (sent w) + 1) = Responded createResp" "ok createResp"
    and "net (length (sent w) + 2) = Responded readmeResp"
    and "\<not> ok readmeResp \<or>
         (\<exists>readmeData deleteResp. body_json readmeResp = Some readmeData \<and> truthy (json_get readmeData (ascii ''sha'')) \<and>
            net (length (sent w) + 3) = Responded deleteResp \<and> \<not> ok deleteResp)"
  shows "(\<exists>w2 new.
            pushPreviewBranch rt cfg net uuid content msg w =
              commit_content rt cfg net (ascii ''card-'' @ uuid) content msg w2 \<and>
            logs w2 = logs w @ new \<and> new \<noteq> [] \<and>
            length (sent w2) = length (sent w) + (if ok readmeResp then 4 else 3)) \<and>
         last (sent (snd (pushPreviewBranch rt cfg net uuid content msg w))) =
           pat_request cfg (update_path rt cfg)
             (update_init rt cfg (ascii ''card-'' @ uuid) content msg) \<and>
         (\<forall>r. net (length (sent w) + (if ok readmeResp then 4 else 3)) = Responded r \<and> ok r \<longrightarrow>
            fst (pushPreviewBranch rt cfg net uuid content msg w) =
              Inr (branch_result rt cfg (ascii ''card-'' @ uuid)))"
proof -
  let ?name = "ascii ''card-'' @ uuid"
  let ?w1 = "w\<lparr>sent := sent w @
              [pat_request cfg (base_ref_path cfg) get_init,
               pat_request cfg (repo_path cfg @ ascii ''/git/refs'')
                 (create_ref_init (ascii ''refs/heads/'' @ ascii ''card-'' @ uuid)
                    (json_get (json_get baseData (ascii ''object'')) (ascii ''sha'')))]\<rparr>"
  have push: "pushPreviewBranch rt cfg net uuid content msg w =
      bind_io (removeReadmeFromBranch rt cfg net ?name)
        (\<lambda>_. commit_content rt cfg net ?name content msg) ?w1"
  proof -
    have a8: "net (Suc (length (sent w))) = Responded createResp" using assms(8) by simp
    show ?thesis by (rule push_reaches_readme [OF assms(1-7) a8 assms(9)])
  qed
  have n1: "net (length (sent ?w1)) = Responded readmeResp" using assms(10) by simp
  have "\<exists>w2 new. removeReadmeFromBranch rt cfg net ?name ?w1 = (Inr (), w2) \<and>
      logs w2 = logs w @ new \<and> new \<noteq> [] \<and>
      length (sent w2) = length (sent w) + (if ok readmeResp then 4 else 3)"
  proof (cases "ok readmeResp")
    case False
    show ?thesis
      using removeReadme_get_failed
        [where cfg = cfg and net = net and w = ?w1 and r = readmeResp and rt = rt and name = ?name,
          OF assms(3) n1 False] False
      by simp
  next
    case True
    with assms(11) obtain readmeData deleteResp where
      readmeData: "body_json readmeResp = Some readmeData" "truthy (json_get readmeData (ascii ''sha''))" and
      deleteResp: "net (length (sent w) + 3) = Responded deleteResp" "\<not> ok deleteResp"
      by blast
    have "Suc (length (sent ?w1)) = length (sent w) + 3" by simp
    then have n2: "net (Suc (length (sent ?w1))) = Responded deleteResp" using deleteResp(1) by (simp only:)
    show ?thesis
      using removeReadme_delete_failed
        [where cfg = cfg and net = net and w = ?w1 and r = readmeResp and r' = deleteResp and j = readmeData
           and rt = rt and name = ?name,
          OF assms(3) n1 True readmeData n2 deleteResp(2)] True
      by simp
  qed
  then obtain w2 new where
    rm: "removeReadmeFromBranch rt cfg net ?name ?w1 = (Inr (), w2)" and
    w2: "logs w2 = logs w @ new" "new \<noteq> []"
      "length (sent w2) = length (sent w) + (if ok readmeResp then 4 else 3)"
    by blast
  have eq: "pushPreviewBranch rt cfg net uuid content msg w =
      commit_content rt cfg net ?name content msg w2"
    unfolding push bind_io_def using rm by simp
  show ?thesis
  proof (intro conjI allI impI)
    show "\<exists>w2 new.
            pushPreviewBranch rt cfg net uuid content msg w =
              commit_content rt cfg net ?name content msg w2 \<and>
            logs w2 = logs w @ new \<and> new \<noteq> [] \<and>
            length (sent w2) = length (sent w) + (if ok readmeResp then 4 else 3)"
      using eq w2 by blast
    show "last (sent (snd (pushPreviewBranch rt cfg net uuid content msg w))) =
           pat_request cfg (update_path rt cfg) (update_init rt cfg ?name content msg)"
      by (simp add: eq commit_content_sent [OF assms(3)])
    fix r
    assume "net (length (sent w) + (if ok readmeResp then 4 else 3)) = Responded r \<and> ok r"
    then have "net (length (sent w2)) = Responded r" "ok r" by (simp_all only: w2(3))
    then show "fst (pushPreviewBranch rt cfg net uuid content msg w) =
              Inr (branch_result rt cfg ?name)"
      by (simp only: eq commit_content_ok [where net = net, OF assms(3)])
  qed
qed

text \<open>
  The README step has no handler of its own for exceptions: a request that gets no answer,
  and a successful lookup whose body is not JSON, end the step with the exception.
\<close>

lemma githubPatRequest_rejected:
  "pat cfg \<noteq> [] \<Longrightarrow> net (length (sent w)) = NetworkFailure \<Longrightarrow>
     githubPatRequest cfg net path init w =
       (Inl FetchFailed, w\<lparr>sent := sent w @ [pat_request cfg path init]\<rparr>)"
  by (simp add: githubPatRequest_def Let_def)

lemma removeReadme_get_rejected:
  assumes "pat cfg \<noteq> []" "net (length (sent w)) = NetworkFailure"
  shows "removeReadmeFromBranch rt cfg net name w =
      (Inl FetchFailed,
       w\<lparr>sent := sent w @ [pat_request cfg (readme_get_path rt cfg name) get_init]\<rparr>)"
  using assms
  by (simp add: removeReadmeFromBranch_def bind_io_Inl [OF githubPatRequest_rejected])

lemma removeReadme_not_json:
  assumes "pat cfg \<noteq> []" "net (length (sent w)) = Responded r" "ok r" "body_json r = None"
  shows "removeReadmeFromBranch rt cfg net name w =
      (Inl SyntaxError,
       w\<lparr>sent := sent w @ [pat_request cfg (readme_get_path rt cfg name) get_init]\<rparr>)"
proof -
  have "status r \<noteq> 404" using assms(3) by (auto simp: ok_def)
  with assms show ?thesis
    by (simp add: removeReadmeFromBranch_def bind_io_Inr [OF githubPatRequest_Responded]
        throw_io_def)
qed

lemma removeReadme_delete_rejected:
  assumes "pat cfg \<noteq> []" "net (length (sent w)) = Responded r" "ok r"
    "body_json r = Some j" "truthy (json_get j (ascii ''sha''))"
    "net (Suc (length (sent w))) = NetworkFailure"
  shows "removeReadmeFromBranch rt cfg net name w =
      (Inl FetchFailed,
       w\<lparr>sent := sent w @ [pat_request cfg (readme_get_path rt cfg name) get_init,
                pat_request cfg (readme_delete_path rt cfg)
                  (readme_delete_init cfg name (json_get j (ascii ''sha'')))]\<rparr>)"
proof -
  have "status r \<noteq> 404" using assms(3) by (auto simp: ok_def)
  with assms show ?thesis
    by (simp add: removeReadmeFromBranch_def bind_io_Inr [OF githubPatRequest_Responded]
        bind_io_Inl [OF githubPatRequest_rejected])
qed

text \<open>
  C2, amended. In a publish whose base reference and branch creation succeed, a README
  step that fails by an answer is logged and never aborts: when the README lookup is
  answered with a status that is not a success (not-found included), or succeeds with a
  hash and the deletion is answered with a status that is not a success (not-found
  included), the failure is logged, the content commit is the last request sent, and the
  publish succeeds when that commit is answered with a success. A README step that fails by
  an exception aborts the publish before the content commit: when the lookup gets no
  answer, the publish fails after the requests GET, POST, GET; when the lookup succeeds
  with a body that is not JSON, the publish fails with the syntax error after the same
  three requests; when the deletion gets no answer, the publish fails after GET, POST,
  GET, DELETE. In these three cases no \<open>PUT\<close> is sent.
\<close>

theorem readme_failure_logged_unless_thrown:
  assumes "owner cfg \<noteq> []" "repo cfg \<noteq> []" "pat cfg \<noteq> []"
    and "net (length (sent w)) = Responded baseResp" "ok baseResp" "body_json baseResp = Some baseData"
    and "truthy (json_get (json_get baseData (ascii ''object'')) (ascii ''sha''))"
    and "net (length (sent w) + 1) = Responded createResp" "ok createResp"
  shows "(\<forall>readmeResp.
            net (length (sent w) + 2) = Responded readmeResp \<and>
            (\<not> ok readmeResp \<or>
             (\<exists>readmeData deleteResp.
                body_json readmeResp = Some readmeData \<and>
                truthy (json_get readmeData (ascii ''sha'')) \<and>
                net (length (sent w) + 3) = Responded deleteResp \<and> \<not> ok deleteResp)) \<longrightarrow>
            (\<exists>w2 new.
               pushPreviewBranch rt cfg net uuid content msg w =
                 commit_content rt cfg net (ascii ''card-'' @ uuid) content msg w2 \<and>
               logs w2 = logs w @ new \<and> new \<noteq> [] \<and>
               length (sent w2) = length (sent w) + (if ok readmeResp then 4 else 3)) \<and>
            last (sent (snd (pushPreviewBranch rt cfg net uuid content msg w))) =
              pat_request cfg (update_path rt cfg)
                (update_init rt cfg (ascii ''card-'' @ uuid) content msg) \<and>
            (\<forall>r. net (length (sent w) + (if ok readmeResp then 4 else 3)) = Responded r \<and> ok r \<longrightarrow>
               fst (pushPreviewBranch rt cfg net uuid content msg w) =
                 Inr (branch_result rt cfg (ascii ''card-'' @ uuid)))) \<and>
         (net (length (sent w) + 2) = NetworkFailure \<longrightarrow>
            fst (pushPreviewBranch rt cfg net uuid content msg w) = Inl FetchFailed \<and>
            map req_method (drop (length (sent w))
              (sent (snd (pushPreviewBranch rt cfg net uuid content msg w)))) =
              [ascii ''GET'', ascii ''POST'', ascii ''GET'']) \<and>
         (\<forall>readmeResp.
            net (length (sent w) + 2) = Responded readmeResp \<and> ok readmeResp \<and>
            body_json readmeResp = None \<longrightarrow>
            fst (pushPreviewBranch rt cfg net uuid content msg w) = Inl SyntaxError \<and>
            map req_method (drop (length (sent w))
              (sent (snd (pushPreviewBranch rt cfg net uuid content msg w)))) =
              [ascii ''GET'', ascii ''POST'', ascii ''GET'']) \<and>
         (\<forall>readmeResp readmeData.
            net (length (sent w) + 2) = Responded readmeResp \<and> ok readmeResp \<and>
            body_json readmeResp = Some readmeData \<and>
            truthy (json_get readmeData (ascii ''sha'')) \<and>
            net (length (sent w) + 3) = NetworkFailure \<longrightarrow>
            fst (pushPreviewBranch rt cfg net uuid content msg w) = Inl FetchFailed \<and>
            map req_method (drop (length (sent w))
              (sent (snd (pushPreviewBranch rt cfg net uuid content msg w)))) =
              [ascii ''GET'', ascii ''POST'', ascii ''GET'', ascii ''DELETE''])"
proof -
  let ?name = "ascii ''card-'' @ uuid"
  let ?push = "pushPreviewBranch rt cfg net uuid content msg w"
  let ?w1 = "w\<lparr>sent := sent w @
              [pat_request cfg (base_ref_path cfg) get_init,
               pat_request cfg (repo_path cfg @ ascii ''/git/refs'')
                 (create_ref_init (ascii ''refs/heads/'' @ ascii ''card-'' @ uuid)
                    (json_get (json_get baseData (ascii ''object'')) (ascii ''sha'')))]\<rparr>"
  have push: "?push =
      bind_io (removeReadmeFromBranch rt cfg net ?name)
        (\<lambda>_. commit_content rt cfg net ?name content msg) ?w1"
  proof -
    have a8: "net (Suc (length (sent w))) = Responded createResp" using assms(8) by simp
    show ?thesis by (rule push_reaches_readme [OF assms(1-7) a8 assms(9)])
  qed
  have len: "length (sent ?w1) = length (sent w) + 2" "Suc (length (sent ?w1)) = length (sent w) + 3"
    by simp_all
  have aborted: "fst ?push = Inl e \<and> sent (snd ?push) = sent w'"
    if "removeReadmeFromBranch rt cfg net ?name ?w1 = (Inl e, w')" for e w'
    using that by (simp add: push bind_io_def)
  have A: "(\<exists>w2 new. ?push = commit_content rt cfg net ?name content msg w2 \<and>
               logs w2 = logs w @ new \<and> new \<noteq> [] \<and>
               length (sent w2) = length (sent w) + (if ok readmeResp then 4 else 3)) \<and>
            last (sent (snd ?push)) =
              pat_request cfg (update_path rt cfg) (update_init rt cfg ?name content msg) \<and>
            (\<forall>r. net (length (sent w) + (if ok readmeResp then 4 else 3)) = Responded r \<and> ok r \<longrightarrow>
               fst ?push = Inr (branch_result rt cfg ?name))"
    if "net (length (sent w) + 2) = Responded readmeResp \<and>
        (\<not> ok readmeResp \<or>
         (\<exists>readmeData deleteResp.
            body_json readmeResp = Some readmeData \<and>
            truthy (json_get readmeData (ascii ''sha'')) \<and>
            net (length (sent w) + 3) = Responded deleteResp \<and> \<not> ok deleteResp))"
    for readmeResp
  proof -
    from that have r: "net (length (sent w) + 2) = Responded readmeResp" by simp
    from that obtain deleteResp where d: "\<not> ok readmeResp \<or>
         (\<exists>readmeData deleteResp'.
            body_json readmeResp = Some readmeData \<and>
            truthy (json_get readmeData (ascii ''sha'')) \<and>
            net (length (sent w) + 3) = Responded deleteResp' \<and> \<not> ok deleteResp')"
      by blast
    show ?thesis
      by (rule readme_status_failure_continues [OF assms r d])
  qed
  have B: "fst ?push = Inl FetchFailed \<and>
      map req_method (drop (length (sent w)) (sent (snd ?push))) =
        [ascii ''GET'', ascii ''POST'', ascii ''GET'']"
    if "net (length (sent w) + 2) = NetworkFailure"
  proof -
    have "net (length (sent ?w1)) = NetworkFailure" using that by (simp only: len(1))
    from aborted [OF removeReadme_get_rejected
        [where cfg = cfg and net = net and w = ?w1 and rt = rt and name = ?name, OF assms(3) this]]
    show ?thesis by (simp add: create_ref_init_def get_init_def pat_request_def)
  qed
  have C: "fst ?push = Inl SyntaxError \<and>
      map req_method (drop (length (sent w)) (sent (snd ?push))) =
        [ascii ''GET'', ascii ''POST'', ascii ''GET'']"
    if "net (length (sent w) + 2) = Responded readmeResp \<and> ok readmeResp \<and>
        body_json readmeResp = None" for readmeResp
  proof -
    have "net (length (sent ?w1)) = Responded readmeResp" using that by (simp only: len(1))
    from aborted [OF removeReadme_not_json
        [where cfg = cfg and net = net and w = ?w1 and rt = rt and name = ?name and r = readmeResp,
          OF assms(3) this]] that
    show ?thesis by (simp add: create_ref_init_def get_init_def pat_request_def)
  qed
  have D: "fst ?push = Inl FetchFailed \<and>
      map req_method (drop (length (sent w)) (sent (snd ?push))) =
        [ascii ''GET'', ascii ''POST'', ascii ''GET'', ascii ''DELETE'']"
    if "net (length (sent w) + 2) = Responded readmeResp \<and> ok readmeResp \<and>
        body_json readmeResp = Some readmeData \<and>
        truthy (json_get readmeData (ascii ''sha'')) \<and>
        net (length (sent w) + 3) = NetworkFailure" for readmeResp readmeData
  proof -
    have n1: "net (length (sent ?w1)) = Responded readmeResp" using that by (simp only: len(1))
    have n2: "net (Suc (length (sent ?w1))) = NetworkFailure" using that by (simp only: len(2))
    from that have o: "ok readmeResp" "body_json readmeResp = Some readmeData"
      "truthy (json_get readmeData (ascii ''sha''))" by simp_all
    from aborted [OF removeReadme_delete_rejected
        [where cfg = cfg and net = net and w = ?w1 and rt = rt and name = ?name and r = readmeResp
           and j = readmeData, OF assms(3) n1 o n2]]
    show ?thesis
      by (simp add: create_ref_init_def get_init_def pat_request_def readme_delete_init_def)
  qed
  show ?thesis using A B C D by blast
qed

text \<open>
  C2, refuted as stated: base reference and branch creation succeed and the content commit
  would be answered with a success, yet a deletion of the README that gets no answer
  aborts the publish after GET, POST, GET, DELETE, and a README lookup answered with a
  success whose body is not JSON aborts it after GET, POST, GET. No content commit is
  sent.
\<close>

theorem readme_exception_aborts_publish_counterexample:
  "fst (pushPreviewBranch (example_runtime example_document) example_config net_delete_rejected
          example_uuid (ascii ''<html></html>'') (ascii ''chore: personalize card'') example_world) =
     Inl FetchFailed \<and>
   map req_method
     (sent (snd (pushPreviewBranch (example_runtime example_document) example_config
                   net_delete_rejected example_uuid (ascii ''<html></html>'')
                   (ascii ''chore: personalize card'') example_world))) =
     [ascii ''GET'', ascii ''POST'', ascii ''GET'', ascii ''DELETE''] \<and>
   fst (pushPreviewBranch (example_runtime example_document) example_config net_readme_not_json
          example_uuid (ascii ''<html></html>'') (ascii ''chore: personalize card'') example_world) =
     Inl SyntaxError \<and>
   map req_method
     (sent (snd (pushPreviewBranch (example_runtime example_document) example_config
                   net_readme_not_json example_uuid (ascii ''<html></html>'')
                   (ascii ''chore: personalize card'') example_world))) =
     [ascii ''GET'', ascii ''POST'', ascii ''GET'']"
  by (simp add: pushPreviewBranch_def removeReadmeFromBranch_def commit_content_def
      githubPatRequest_def bind_io_def return_io_def throw_io_def log_io_def Let_def
      net_delete_rejected_def net_readme_not_json_def scripted_def answer_def ok_def
      example_config_def example_world_def sha_payload_def ascii_def pat_request_def
      get_init_def create_ref_init_def readme_delete_init_def)

theorem readme_failure_logged_unless_thrown_witness:
  "\<not> ok (answer 404 None) \<and>
   fst (pushPreviewBranch (example_runtime example_document) example_config net_readme_404
          example_uuid (ascii ''<html></html>'') (ascii ''chore: personalize card'') example_world) =
     Inr (branch_result (example_runtime example_document) example_config
            (ascii ''card-'' @ example_uuid)) \<and>
   ok (answer 200 (Some sha_payload)) \<and> \<not> ok (answer 500 None) \<and>
   fst (pushPreviewBranch (example_runtime example_document) example_config net_delete_500
          example_uuid (ascii ''<html></html>'') (ascii ''chore: personalize card'') example_world) =
     Inr (branch_result (example_runtime example_document) example_config
            (ascii ''card-'' @ example_uuid)) \<and>
   net_readme_rejected 2 = NetworkFailure \<and>
   fst (pushPreviewBranch (example_runtime example_document) example_config net_readme_rejected
          example_uuid (ascii ''<html></html>'') (ascii ''chore: personalize card'') example_world) =
     Inl FetchFailed \<and>
   body_json (answer 200 None) = None \<and>
   fst (pushPreviewBranch (example_runtime example_document) example_config net_readme_not_json
          example_uuid (ascii ''<html></html>'') (ascii ''chore: personalize card'') example_world) =
     Inl SyntaxError \<and>
   net_delete_rejected 3 = NetworkFailure \<and>
   fst (pushPreviewBranch (example_runtime example_document) example_config net_delete_rejected
          example_uuid (ascii ''<html></html>'') (ascii ''chore: personalize card'') example_world) =
     Inl FetchFailed"
proof -
  let ?rt = "example_runtime example_document"
  have c: "owner example_config \<noteq> []" "repo example_config \<noteq> []" "pat example_config \<noteq> []"
    by (simp_all add: example_config_def ascii_def)
  have t: "truthy (json_get (json_get sha_payload (ascii ''object'')) (ascii ''sha''))"
      "truthy (json_get sha_payload (ascii ''sha''))"
    by (simp_all add: sha_payload_def ascii_def)
  have o: "ok (answer 200 (Some sha_payload))" "ok (answer 201 None)" "ok (answer 200 None)"
      "\<not> ok (answer 404 None)" "\<not> ok (answer 500 None)"
      "body_json (answer 200 (Some sha_payload)) = Some sha_payload"
      "body_json (answer 200 None) = None"
    by (simp_all add: answer_def ok_def)
  note T = readme_failure_logged_unless_thrown
    [where cfg = example_config and w = example_world
       and baseResp = "answer 200 (Some sha_payload)" and baseData = sha_payload
       and createResp = "answer 201 None" and rt = ?rt and uuid = example_uuid
       and content = "ascii ''<html></html>''" and msg = "ascii ''chore: personalize card''",
     OF c _ o(1) o(6) t(1) _ o(2)]
  have T1: "fst (pushPreviewBranch ?rt example_config net_readme_404 example_uuid
      (ascii ''<html></html>'') (ascii ''chore: personalize card'') example_world) =
      Inr (branch_result ?rt example_config (ascii ''card-'' @ example_uuid))"
    using T [where net = net_readme_404, THEN conjunct1, rule_format, of "answer 404 None",
        THEN conjunct2, THEN conjunct2, rule_format, of "answer 201 None"] o
    by (simp add: net_readme_404_def scripted_def example_world_def)
  have T2: "fst (pushPreviewBranch ?rt example_config net_delete_500 example_uuid
      (ascii ''<html></html>'') (ascii ''chore: personalize card'') example_world) =
      Inr (branch_result ?rt example_config (ascii ''card-'' @ example_uuid))"
    using T [where net = net_delete_500, THEN conjunct1, rule_format,
        of "answer 200 (Some sha_payload)",
        THEN conjunct2, THEN conjunct2, rule_format, of "answer 201 None"] o t
    by (auto simp: net_delete_500_def scripted_def example_world_def)
  have T3: "fst (pushPreviewBranch ?rt example_config net_readme_rejected example_uuid
      (ascii ''<html></html>'') (ascii ''chore: personalize card'') example_world) = Inl FetchFailed"
    using T [where net = net_readme_rejected, THEN conjunct2, THEN conjunct1] o
    by (simp add: net_readme_rejected_def scripted_def example_world_def)
  have T4: "fst (pushPreviewBranch ?rt example_config net_readme_not_json example_uuid
      (ascii ''<html></html>'') (ascii ''chore: personalize card'') example_world) = Inl SyntaxError"
    using T [where net = net_readme_not_json, THEN conjunct2, THEN conjunct2, THEN conjunct1,
        rule_format, of "answer 200 None"] o
    by (simp add: net_readme_not_json_def scripted_def example_world_def)
  have T5: "fst (pushPreviewBranch ?rt example_config net_delete_rejected example_uuid
      (ascii ''<html></html>'') (ascii ''chore: personalize card'') example_world) = Inl FetchFailed"
    using T [where net = net_delete_rejected, THEN conjunct2, THEN conjunct2, THEN conjunct2,
        rule_format, of "answer 200 (Some sha_payload)" sha_payload] o t
    by (simp add: net_delete_rejected_def scripted_def example_world_def)
  show ?thesis
    using T1 T2 T3 T4 T5 o
    by (simp add: net_readme_rejected_def net_delete_rejected_def scripted_def)
qed

text \<open>
  C10. When the README lookup succeeds and its payload has no \<open>sha\<close>, the README step
  logs a warning and returns after that one request, and the publish continues with the
  content commit: the requests sent before it are the two lookups and the branch creation,
  and none of them is a \<open>DELETE\<close>.
\<close>

theorem readme_without_sha_skips_delete:
  assumes "owner cfg \<noteq> []" "repo cfg \<noteq> []" "pat cfg \<noteq> []"
    and "net (length (sent w)) = Responded baseResp" "ok baseResp" "body_json baseResp = Some baseData"
    and "truthy (json_get (json_get baseData (ascii ''object'')) (ascii ''sha''))"
    and "net (length (sent w) + 1) = Responded createResp" "ok createResp"
    and "net (length (sent w) + 2) = Responded readmeResp" "ok readmeResp" "body_json readmeResp = Some readmeData"
    and "json_get readmeData (ascii ''sha'') = JUndefined"
  shows "(\<forall>w1. net (length (sent w1)) = Responded readmeResp \<longrightarrow>
            removeReadmeFromBranch rt cfg net (ascii ''card-'' @ uuid) w1 =
              (Inr (),
               w1\<lparr>sent := sent w1 @
                      [pat_request cfg (readme_get_path rt cfg (ascii ''card-'' @ uuid)) get_init],
                    logs := logs w1 @
                      [ConsoleWarn (ascii ''[/github/preview] README metadata missing SHA.'') []]\<rparr>)) \<and>
         pushPreviewBranch rt cfg net uuid content msg w =
           commit_content rt cfg net (ascii ''card-'' @ uuid) content msg
             (w\<lparr>sent := sent w @
                    [pat_request cfg (base_ref_path cfg) get_init,
                     pat_request cfg (repo_path cfg @ ascii ''/git/refs'')
                       (create_ref_init (ascii ''refs/heads/'' @ ascii ''card-'' @ uuid)
                          (json_get (json_get baseData (ascii ''object'')) (ascii ''sha''))),
                     pat_request cfg (readme_get_path rt cfg (ascii ''card-'' @ uuid)) get_init],
                  logs := logs w @
                    [ConsoleWarn (ascii ''[/github/preview] README metadata missing SHA.'') []]\<rparr>) \<and>
         map req_method
           [pat_request cfg (base_ref_path cfg) get_init,
            pat_request cfg (repo_path cfg @ ascii ''/git/refs'')
              (create_ref_init (ascii ''refs/heads/'' @ ascii ''card-'' @ uuid)
                 (json_get (json_get baseData (ascii ''object'')) (ascii ''sha''))),
            pat_request cfg (readme_get_path rt cfg (ascii ''card-'' @ uuid)) get_init] =
           [ascii ''GET'', ascii ''POST'', ascii ''GET'']"
proof (intro conjI allI impI)
  let ?name = "ascii ''card-'' @ uuid"
  have nosha: "\<not> truthy (json_get readmeData (ascii ''sha''))" using assms(13) by simp
  show rm: "removeReadmeFromBranch rt cfg net ?name w1 =
      (Inr (),
       w1\<lparr>sent := sent w1 @ [pat_request cfg (readme_get_path rt cfg ?name) get_init],
            logs := logs w1 @
              [ConsoleWarn (ascii ''[/github/preview] README metadata missing SHA.'') []]\<rparr>)"
    if "net (length (sent w1)) = Responded readmeResp" for w1
    using removeReadme_no_sha
      [where cfg = cfg and net = net and w = w1 and r = readmeResp and j = readmeData and rt = rt and name = ?name,
        OF assms(3) that assms(11,12) nosha] .
  let ?w1 = "w\<lparr>sent := sent w @
              [pat_request cfg (base_ref_path cfg) get_init,
               pat_request cfg (repo_path cfg @ ascii ''/git/refs'')
                 (create_ref_init (ascii ''refs/heads/'' @ ascii ''card-'' @ uuid)
                    (json_get (json_get baseData (ascii ''object'')) (ascii ''sha'')))]\<rparr>"
  have push: "pushPreviewBranch rt cfg net uuid content msg w =
      bind_io (removeReadmeFromBranch rt cfg net ?name)
        (\<lambda>_. commit_content rt cfg net ?name content msg) ?w1"
  proof -
    have a8: "net (Suc (length (sent w))) = Responded createResp" using assms(8) by simp
    show ?thesis by (rule push_reaches_readme [OF assms(1-7) a8 assms(9)])
  qed
  have n1: "net (length (sent ?w1)) = Responded readmeResp" using assms(10) by simp
  show "pushPreviewBranch rt cfg net uuid content msg w =
           commit_content rt cfg net ?name content msg
             (w\<lparr>sent := sent w @
                    [pat_request cfg (base_ref_path cfg) get_init,
                     pat_request cfg (repo_path cfg @ ascii ''/git/refs'')
                       (create_ref_init (ascii ''refs/heads/'' @ ascii ''card-'' @ uuid)
                          (json_get (json_get baseData (ascii ''object'')) (ascii ''sha''))),
                     pat_request cfg (readme_get_path rt cfg ?name) get_init],
                  logs := logs w @
                    [ConsoleWarn (ascii ''[/github/preview] README metadata missing SHA.'') []]\<rparr>)"
    unfolding push bind_io_def using rm [OF n1] by simp
  show "map req_method
           [pat_request cfg (base_ref_path cfg) get_init,
            pat_request cfg (repo_path cfg @ ascii ''/git/refs'')
              (create_ref_init (ascii ''refs/heads/'' @ ascii ''card-'' @ uuid)
                 (json_get (json_get baseData (ascii ''object'')) (ascii ''sha''))),
            pat_request cfg (readme_get_path rt cfg ?name) get_init] =
           [ascii ''GET'', ascii ''POST'', ascii ''GET'']"
    by (simp add: pat_request_def get_init_def create_ref_init_def)
qed

theorem readme_without_sha_skips_delete_witness:
  "ok (answer 200 (Some (JObj [(ascii ''name'', JStr (ascii ''README.md''))]))) \<and>
   json_get (JObj [(ascii ''name'', JStr (ascii ''README.md''))]) (ascii ''sha'') = JUndefined \<and>
   map req_method
     (sent (snd (pushPreviewBranch (example_runtime example_document) example_config
                   net_readme_no_sha example_uuid (ascii ''<html></html>'')
                   (ascii ''chore: personalize card'') example_world))) =
     [ascii ''GET'', ascii ''POST'', ascii ''GET'', ascii ''PUT'']"
  using readme_without_sha_skips_delete
      [where cfg = example_config and net = net_readme_no_sha and w = example_world
         and baseResp = "answer 200 (Some sha_payload)" and baseData = sha_payload
         and createResp = "answer 201 None"
         and readmeResp = "answer 200 (Some (JObj [(ascii ''name'', JStr (ascii ''README.md''))]))"
         and readmeData = "JObj [(ascii ''name'', JStr (ascii ''README.md''))]"
         and rt = "example_runtime example_document" and uuid = example_uuid
         and content = "ascii ''<html></html>''" and msg = "ascii ''chore: personalize card''"]
    commit_content_sent [where cfg = example_config]
  by (simp add: net_readme_no_sha_def scripted_def answer_def ok_def
      example_config_def example_world_def sha_payload_def ascii_def
      pat_request_def get_init_def create_ref_init_def update_init_def)


section \<open>Requests of a publish\<close>

lemma sends_return [intro!]: "sends (return_io x) S"
  by (simp add: sends_def return_io_def)

lemma sends_throw [intro!]: "sends (throw_io e) S"
  by (simp add: sends_def throw_io_def)

lemma sends_log [intro!]: "sends (log_io l) S"
  by (simp add: sends_def log_io_def)

lemma sends_bind [intro!]:
  assumes "sends m S" "\<And>x. sends (f x) S"
  shows "sends (bind_io m f) S"
  unfolding sends_def
proof
  fix w
  obtain a w1 where m: "m w = (a, w1)" by (cases "m w")
  from assms(1) obtain n1 where n1: "sent w1 = sent w @ n1" "set n1 \<subseteq> S"
    unfolding sends_def using m by (metis snd_conv)
  show "\<exists>new. sent (snd (bind_io m f w)) = sent w @ new \<and> set new \<subseteq> S"
  proof (cases a)
    case (Inl e)
    then show ?thesis using m n1 by (simp add: bind_io_def)
  next
    case (Inr x)
    from assms(2) [of x] obtain n2 where "sent (snd (f x w1)) = sent w1 @ n2" "set n2 \<subseteq> S"
      unfolding sends_def by blast
    then show ?thesis using m n1 Inr by (simp add: bind_io_def)
  qed
qed

lemma sends_request [intro!]:
  "pat_request cfg path init \<in> S \<Longrightarrow> sends (githubPatRequest cfg net path init) S"
  unfolding sends_def
  by (auto simp: githubPatRequest_def Let_def split: fetch_outcome.splits)

lemma sends_if [intro!]: "(c \<Longrightarrow> sends a S) \<Longrightarrow> (\<not> c \<Longrightarrow> sends b S) \<Longrightarrow> sends (if c then a else b) S"
  by simp

lemma sends_option [intro!]:
  "(x = None \<Longrightarrow> sends a S) \<Longrightarrow> (\<And>y. x = Some y \<Longrightarrow> sends (b y) S) \<Longrightarrow>
     sends (case x of None \<Rightarrow> a | Some y \<Rightarrow> b y) S"
  by (cases x) simp_all

lemma sends_removeReadme:
  assumes "pat_request cfg (readme_get_path rt cfg name) get_init \<in> S"
    "\<And>sha. pat_request cfg (readme_delete_path rt cfg) (readme_delete_init cfg name sha) \<in> S"
  shows "sends (removeReadmeFromBranch rt cfg net name) S"
  unfolding removeReadmeFromBranch_def Let_def using assms by (intro sends_bind sends_request sends_if sends_option sends_return sends_log sends_throw)

lemma sends_commit:
  assumes "pat_request cfg (update_path rt cfg) (update_init rt cfg name content msg) \<in> S"
  shows "sends (commit_content rt cfg net name content msg) S"
  unfolding commit_content_def using assms by (intro sends_bind sends_request sends_if sends_option sends_return sends_log sends_throw)

lemma sends_push:
  assumes "pat_request cfg (base_ref_path cfg) get_init \<in> S"
    "\<And>sha. pat_request cfg (repo_path cfg @ ascii ''/git/refs'')
        (create_ref_init (ascii ''refs/heads/'' @ ascii ''card-'' @ uuid) sha) \<in> S"
    "pat_request cfg (readme_get_path rt cfg (ascii ''card-'' @ uuid)) get_init \<in> S"
    "\<And>sha. pat_request cfg (readme_delete_path rt cfg)
        (readme_delete_init cfg (ascii ''card-'' @ uuid) sha) \<in> S"
    "pat_request cfg (update_path rt cfg)
        (update_init rt cfg (ascii ''card-'' @ uuid) content msg) \<in> S"
  shows "sends (pushPreviewBranch rt cfg net uuid content msg) S"
  unfolding pushPreviewBranch_def Let_def using assms
  by (intro sends_bind sends_request sends_if sends_option sends_return sends_log sends_throw
        sends_removeReadme sends_commit)

lemma sends_new:
  assumes "sends m S"
  shows "set (drop (length (sent w)) (sent (snd (m w)))) \<subseteq> S"
proof -
  from assms obtain new where "sent (snd (m w)) = sent w @ new" "set new \<subseteq> S"
    unfolding sends_def by blast
  then show ?thesis by simp
qed

lemma pat_request_method [simp]: "req_method (pat_request cfg path init) = init_method init"
  by (simp add: pat_request_def)

lemma pat_request_body [simp]: "req_body (pat_request cfg path init) = init_body init"
  by (simp add: pat_request_def)

lemma method_names [simp]:
  "init_method get_init = ascii ''GET''"
  "init_method (create_ref_init branchRef sha) = ascii ''POST''"
  "init_method (readme_delete_init cfg name sha) = ascii ''DELETE''"
  "init_method (update_init rt cfg name content msg) = ascii ''PUT''"
  by (simp_all add: get_init_def create_ref_init_def readme_delete_init_def update_init_def)

lemma methods_differ [simp]:
  "ascii ''GET'' \<noteq> ascii ''POST''" "ascii ''DELETE'' \<noteq> ascii ''POST''"
  "ascii ''PUT'' \<noteq> ascii ''POST''" "ascii ''GET'' \<noteq> ascii ''PUT''"
  "ascii ''DELETE'' \<noteq> ascii ''PUT''" "ascii ''POST'' \<noteq> ascii ''PUT''"
  by (simp_all add: ascii_def)

lemma push_posts:
  "set (drop (length (sent w)) (sent (snd (pushPreviewBranch rt cfg net uuid content msg w))))
     \<subseteq> {q. req_method q = ascii ''POST'' \<longrightarrow>
            (\<exists>sha. req_body q =
               Some (JObj [(ascii ''ref'', JStr (ascii ''refs/heads/card-'' @ uuid)),
                           (ascii ''sha'', sha)]))}"
  by (rule sends_new, rule sends_push) (simp_all add: create_ref_init_def ascii_def)

lemma push_puts:
  "set (drop (length (sent w)) (sent (snd (pushPreviewBranch rt cfg net uuid content msg w))))
     \<subseteq> {q. req_method q = ascii ''PUT'' \<longrightarrow>
            (\<exists>j. req_body q = Some j \<and> json_get j (ascii ''message'') = JStr msg)}"
  by (rule sends_new, rule sends_push) (simp_all add: update_init_def ascii_def)

lemma bind_io_Inr_iff:
  "bind_io m f w = (Inr y, w') \<longleftrightarrow> (\<exists>x w1. m w = (Inr x, w1) \<and> f x w1 = (Inr y, w'))"
  by (auto simp: bind_io_def split: prod.splits sum.splits)

lemma commit_content_result:
  "commit_content rt cfg net name content msg w = (Inr res, w') \<Longrightarrow>
     res = branch_result rt cfg name"
  by (auto simp: commit_content_def bind_io_Inr_iff throw_io_def return_io_def split: if_splits)

lemma push_result:
  "pushPreviewBranch rt cfg net uuid content msg w = (Inr res, w') \<Longrightarrow>
     res = branch_result rt cfg (ascii ''card-'' @ uuid)"
  by (auto simp: pushPreviewBranch_def bind_io_Inr_iff throw_io_def Let_def
      split: if_splits option.splits dest: commit_content_result)

text \<open>
  C6. A publish names its branch \<open>card-\<close> followed by the identifier that
  \<open>randomUUID()\<close> returned in that attempt: this is the branch name of a successful result
  and the reference that the branch-creation request of any attempt asks for. Two attempts
  whose identifiers differ therefore never name the same branch, whatever their
  configuration, base branch and network.
\<close>

theorem branch_names_of_attempts_differ:
  assumes "uuidA \<noteq> uuidB"
  shows "(\<forall>resA resB wA' wB'.
            pushPreviewBranch rtA cfgA netA uuidA contentA msgA wA = (Inr resA, wA') \<and>
            pushPreviewBranch rtB cfgB netB uuidB contentB msgB wB = (Inr resB, wB') \<longrightarrow>
              branchName resA = ascii ''card-'' @ uuidA \<and>
              branchName resB = ascii ''card-'' @ uuidB \<and>
              branchName resA \<noteq> branchName resB) \<and>
         (\<forall>qA \<in> set (drop (length (sent wA))
                     (sent (snd (pushPreviewBranch rtA cfgA netA uuidA contentA msgA wA)))).
          \<forall>qB \<in> set (drop (length (sent wB))
                     (sent (snd (pushPreviewBranch rtB cfgB netB uuidB contentB msgB wB)))).
            req_method qA = ascii ''POST'' \<and> req_method qB = ascii ''POST'' \<longrightarrow>
              (\<exists>sha. req_body qA =
                 Some (JObj [(ascii ''ref'', JStr (ascii ''refs/heads/card-'' @ uuidA)),
                             (ascii ''sha'', sha)])) \<and>
              (\<exists>sha. req_body qB =
                 Some (JObj [(ascii ''ref'', JStr (ascii ''refs/heads/card-'' @ uuidB)),
                             (ascii ''sha'', sha)])) \<and>
              req_body qA \<noteq> req_body qB)"
proof (intro conjI allI impI ballI)
  fix resA resB wA' wB'
  assume "pushPreviewBranch rtA cfgA netA uuidA contentA msgA wA = (Inr resA, wA') \<and>
          pushPreviewBranch rtB cfgB netB uuidB contentB msgB wB = (Inr resB, wB')"
  then have r: "resA = branch_result rtA cfgA (ascii ''card-'' @ uuidA)"
      "resB = branch_result rtB cfgB (ascii ''card-'' @ uuidB)"
    by (auto dest: push_result)
  show "branchName resA = ascii ''card-'' @ uuidA" "branchName resB = ascii ''card-'' @ uuidB"
    by (simp_all add: r branch_result_def Let_def)
  show "branchName resA \<noteq> branchName resB"
    using assms by (simp add: r branch_result_def Let_def)
next
  fix qA qB
  assume qA: "qA \<in> set (drop (length (sent wA))
                     (sent (snd (pushPreviewBranch rtA cfgA netA uuidA contentA msgA wA))))"
    and qB: "qB \<in> set (drop (length (sent wB))
                     (sent (snd (pushPreviewBranch rtB cfgB netB uuidB contentB msgB wB))))"
    and post: "req_method qA = ascii ''POST'' \<and> req_method qB = ascii ''POST''"
  from qA post show a: "\<exists>sha. req_body qA =
      Some (JObj [(ascii ''ref'', JStr (ascii ''refs/heads/card-'' @ uuidA)), (ascii ''sha'', sha)])"
    using push_posts [of wA rtA cfgA netA uuidA contentA msgA] by blast
  from qB post show b: "\<exists>sha. req_body qB =
      Some (JObj [(ascii ''ref'', JStr (ascii ''refs/heads/card-'' @ uuidB)), (ascii ''sha'', sha)])"
    using push_posts [of wB rtB cfgB netB uuidB contentB msgB] by blast
  from a b assms show "req_body qA \<noteq> req_body qB" by auto
qed

text \<open>The example publish: no README on the new branch.\<close>

lemma example_publish:
  "fst (pushPreviewBranch rt example_config net_readme_404 uuid content msg example_world) =
     Inr (branch_result rt example_config (ascii ''card-'' @ uuid))"
  by (simp add: pushPreviewBranch_def removeReadmeFromBranch_def commit_content_def
      githubPatRequest_def bind_io_def return_io_def throw_io_def log_io_def Let_def
      net_readme_404_def scripted_def answer_def ok_def example_config_def example_world_def
      sha_payload_def ascii_def)

theorem branch_names_of_attempts_differ_witness:
  "example_uuid \<noteq> example_uuid_2 \<and>
   fst (pushPreviewBranch (example_runtime example_document) example_config net_readme_404
          example_uuid [] [] example_world) =
     Inr (branch_result (example_runtime example_document) example_config
            (ascii ''card-'' @ example_uuid)) \<and>
   fst (pushPreviewBranch (example_runtime example_document) example_config net_readme_404
          example_uuid_2 [] [] example_world) =
     Inr (branch_result (example_runtime example_document) example_config
            (ascii ''card-'' @ example_uuid_2)) \<and>
   branchName (branch_result (example_runtime example_document) example_config
                 (ascii ''card-'' @ example_uuid)) \<noteq>
   branchName (branch_result (example_runtime example_document) example_config
                 (ascii ''card-'' @ example_uuid_2))"
proof -
  let ?rt = "example_runtime example_document"
  let ?A = "pushPreviewBranch ?rt example_config net_readme_404 example_uuid [] [] example_world"
  let ?B = "pushPreviewBranch ?rt example_config net_readme_404 example_uuid_2 [] [] example_world"
  have ne: "example_uuid \<noteq> example_uuid_2"
    by (simp add: example_uuid_def example_uuid_2_def ascii_def)
  have A: "?A = (Inr (branch_result ?rt example_config (ascii ''card-'' @ example_uuid)), snd ?A)"
    using example_publish [of ?rt example_uuid "[]" "[]"] by (simp add: prod_eq_iff)
  have B: "?B = (Inr (branch_result ?rt example_config (ascii ''card-'' @ example_uuid_2)), snd ?B)"
    using example_publish [of ?rt example_uuid_2 "[]" "[]"] by (simp add: prod_eq_iff)
  from branch_names_of_attempts_differ [OF ne, THEN conjunct1, rule_format, OF conjI [OF A B]]
  show ?thesis
    using ne example_publish [of ?rt example_uuid "[]" "[]"]
      example_publish [of ?rt example_uuid_2 "[]" "[]"]
    by simp
qed

lemma handler_sent:
  "sent (snd (preview_handler rt cfg net template reqBody uuid now w)) = sent w \<or>
   (\<exists>body raw t. reqBody = Some body \<and> property body (ascii ''fields'') = Inr raw \<and>
      template = Some t \<and>
      sent (snd (preview_handler rt cfg net template reqBody uuid now w)) =
        sent (snd (pushPreviewBranch rt cfg net uuid
                (html (applyFieldsToTemplate rt t (normalizeFieldValues raw)))
                (commit_message body now) (w\<lparr>template_reads := Suc (template_reads w)\<rparr>))))"
  by (auto simp: preview_handler_def bind_io_def log_io_def return_io_def throw_io_def Let_def
      split: option.splits sum.splits prod.splits)

text \<open>
  C9, amended. When \<open>commitMessage\<close> is a string that is not empty after trimming, the
  commit message is the trimmed string cut to its first 250 code units; in every other
  case (absent, not a string, or blank) it is \<open>chore: update card preview\<close> followed by
  the timestamp. Every content commit that the request sends carries that message.
\<close>

theorem commit_message_of_request:
  "(\<forall>m. json_get body (ascii ''commitMessage'') = JStr m \<and> trim m \<noteq> [] \<longrightarrow>
      commit_message body now = take 250 (trim m)) \<and>
   ((\<forall>m. json_get body (ascii ''commitMessage'') = JStr m \<longrightarrow> trim m = []) \<longrightarrow>
      commit_message body now = ascii ''chore: update card preview '' @ now) \<and>
   (\<forall>q \<in> set (drop (length (sent w))
        (sent (snd (preview_handler rt cfg net template (Some body) uuid now w)))).
      req_method q = ascii ''PUT'' \<longrightarrow>
        (\<exists>j. req_body q = Some j \<and>
           json_get j (ascii ''message'') = JStr (commit_message body now)))"
proof (intro conjI allI impI ballI)
  fix m assume "json_get body (ascii ''commitMessage'') = JStr m \<and> trim m \<noteq> []"
  then show "commit_message body now = take 250 (trim m)"
    by (simp add: commit_message_def)
next
  assume "\<forall>m. json_get body (ascii ''commitMessage'') = JStr m \<longrightarrow> trim m = []"
  then show "commit_message body now = ascii ''chore: update card preview '' @ now"
    by (simp add: commit_message_def split: json.splits)
next
  fix q
  let ?h = "preview_handler rt cfg net template (Some body) uuid now w"
  assume q: "q \<in> set (drop (length (sent w)) (sent (snd ?h)))"
    and put: "req_method q = ascii ''PUT''"
  from handler_sent [of rt cfg net template "Some body" uuid now w]
  show "\<exists>j. req_body q = Some j \<and> json_get j (ascii ''message'') = JStr (commit_message body now)"
  proof
    assume "sent (snd ?h) = sent w"
    with q show ?thesis by simp
  next
    assume "\<exists>body' raw t. Some body = Some body' \<and> property body' (ascii ''fields'') = Inr raw \<and>
      template = Some t \<and>
      sent (snd ?h) =
        sent (snd (pushPreviewBranch rt cfg net uuid
                (html (applyFieldsToTemplate rt t (normalizeFieldValues raw)))
                (commit_message body' now) (w\<lparr>template_reads := Suc (template_reads w)\<rparr>)))"
    then obtain raw t where
      "sent (snd ?h) =
        sent (snd (pushPreviewBranch rt cfg net uuid
                (html (applyFieldsToTemplate rt t (normalizeFieldValues raw)))
                (commit_message body now) (w\<lparr>template_reads := Suc (template_reads w)\<rparr>)))"
      by auto
    with q put show ?thesis
      using push_puts [of "w\<lparr>template_reads := Suc (template_reads w)\<rparr>" rt cfg net uuid
          "html (applyFieldsToTemplate rt t (normalizeFieldValues raw))" "commit_message body now"]
      by auto
  qed
qed

text \<open>
  C9, refuted as stated: a \<open>commitMessage\<close> that is a string of whitespace only is
  provided, yet the commit message is the timestamped default and not the trimmed string.
\<close>

theorem commit_message_blank_counterexample:
  "json_get blank_message_body (ascii ''commitMessage'') = JStr (ascii ''   '') \<and>
   take 250 (trim (ascii ''   '')) = [] \<and>
   commit_message blank_message_body example_now =
     ascii ''chore: update card preview 2025-01-01T00:00:00.000Z''"
  by (simp add: blank_message_body_def example_now_def commit_message_def trim_def is_ws_def
      ascii_def)

lemma example_body_fields:
  "normalizeFieldValues (json_get example_body (ascii ''fields'')) =
     [(ascii ''personFirst'', ascii ''patrick''), (ascii ''personLast'', ascii ''BATEMAN'')]"
  by (simp add: example_body_def normalizeFieldValues_def TEMPLATE_FIELD_MAP_def
      TEMPLATE_FIELD_CONFIGS_def field_def ascii_def sanitizeFieldValue_def trim_def is_ws_def)

lemma example_body_message:
  "commit_message example_body example_now = ascii ''chore: personalize card''"
  by (simp add: example_body_def commit_message_def trim_def is_ws_def ascii_def)

lemma example_handler_sent:
  "sent (snd (preview_handler rt example_config net_readme_404 (Some t) (Some example_body)
                uuid example_now example_world)) =
   sent (snd (pushPreviewBranch rt example_config net_readme_404 uuid
                (html (applyFieldsToTemplate rt t
                   (normalizeFieldValues (json_get example_body (ascii ''fields'')))))
                (commit_message example_body example_now)
                (example_world\<lparr>template_reads := Suc (template_reads example_world)\<rparr>)))"
proof -
  have "property example_body (ascii ''fields'') = Inr (json_get example_body (ascii ''fields''))"
    by (simp add: property_def example_body_def)
  moreover have "owner example_config \<noteq> []" "repo example_config \<noteq> []" "pat example_config \<noteq> []"
    by (simp_all add: example_config_def ascii_def)
  ultimately show ?thesis
    by (simp add: preview_handler_def example_body_fields Let_def bind_io_def log_io_def
        return_io_def split: prod.splits sum.splits)
qed

lemma example_push_sent:
  "map req_method
     (sent (snd (pushPreviewBranch rt example_config net_readme_404 uuid content msg
                   (example_world\<lparr>template_reads := n\<rparr>)))) =
     [ascii ''GET'', ascii ''POST'', ascii ''GET'', ascii ''PUT''] \<and>
   req_body (last (sent (snd (pushPreviewBranch rt example_config net_readme_404 uuid content msg
                   (example_world\<lparr>template_reads := n\<rparr>))))) =
     init_body (update_init rt example_config (ascii ''card-'' @ uuid) content msg)"
  by (simp add: pushPreviewBranch_def removeReadmeFromBranch_def commit_content_def
      githubPatRequest_def bind_io_def return_io_def throw_io_def log_io_def Let_def
      net_readme_404_def scripted_def answer_def ok_def example_config_def example_world_def
      sha_payload_def ascii_def pat_request_def get_init_def create_ref_init_def)

theorem commit_message_of_request_witness:
  "json_get example_body (ascii ''commitMessage'') = JStr (ascii ''  chore: personalize card  '') \<and>
   trim (ascii ''  chore: personalize card  '') \<noteq> [] \<and>
   commit_message example_body example_now = ascii ''chore: personalize card'' \<and>
   commit_message (JObj []) example_now =
     ascii ''chore: update card preview 2025-01-01T00:00:00.000Z'' \<and>
   req_method (last (sent (snd (preview_handler (example_runtime example_document) example_config
      net_readme_404 (Some []) (Some example_body) example_uuid example_now example_world)))) =
     ascii ''PUT'' \<and>
   map_option (\<lambda>j. json_get j (ascii ''message''))
     (req_body (last (sent (snd (preview_handler (example_runtime example_document) example_config
        net_readme_404 (Some []) (Some example_body) example_uuid example_now example_world))))) =
     Some (JStr (ascii ''chore: personalize card''))"
proof -
  let ?rt = "example_runtime example_document"
  let ?H = "preview_handler ?rt example_config net_readme_404 (Some []) (Some example_body)
      example_uuid example_now example_world"
  let ?content = "html (applyFieldsToTemplate ?rt []
      (normalizeFieldValues (json_get example_body (ascii ''fields''))))"
  let ?P = "pushPreviewBranch ?rt example_config net_readme_404 example_uuid ?content
      (commit_message example_body example_now)
      (example_world\<lparr>template_reads := Suc (template_reads example_world)\<rparr>)"
  have HP: "sent (snd ?H) = sent (snd ?P)" by (rule example_handler_sent)
  note P = example_push_sent [of ?rt example_uuid ?content
      "commit_message example_body example_now" "Suc (template_reads example_world)"]
  from P have ne: "sent (snd ?P) \<noteq> []" by auto
  have "req_method (last (sent (snd ?P))) = last (map req_method (sent (snd ?P)))"
    using ne by (simp add: last_map)
  then have m: "req_method (last (sent (snd ?H))) = ascii ''PUT''"
    using P by (simp add: HP)
  have b: "map_option (\<lambda>j. json_get j (ascii ''message'')) (req_body (last (sent (snd ?H)))) =
      Some (JStr (commit_message example_body example_now))"
    using P by (simp add: HP update_init_def)
  have g: "json_get example_body (ascii ''commitMessage'') = JStr (ascii ''  chore: personalize card  '')"
    "trim (ascii ''  chore: personalize card  '') \<noteq> []"
    by (simp_all add: example_body_def trim_def is_ws_def ascii_def)
  have n: "\<forall>m. json_get (JObj []) (ascii ''commitMessage'') = JStr m \<longrightarrow> trim m = []"
    by simp
  note T1 = commit_message_of_request [of example_body example_now example_world ?rt
      example_config net_readme_404 "Some []" example_uuid]
  note T2 = commit_message_of_request [of "JObj []" example_now example_world ?rt
      example_config net_readme_404 "Some []" example_uuid]
  from T1 g have c1: "commit_message example_body example_now = take 250 (trim (ascii ''  chore: personalize card  ''))"
    by blast
  from T2 n have c2: "commit_message (JObj []) example_now = ascii ''chore: update card preview '' @ example_now"
    by blast
  have e1: "take 250 (trim (ascii ''  chore: personalize card  '')) = ascii ''chore: personalize card''"
    by (simp add: trim_def is_ws_def ascii_def)
  have e2: "ascii ''chore: update card preview '' @ example_now =
      ascii ''chore: update card preview 2025-01-01T00:00:00.000Z''"
    by (simp add: example_now_def ascii_def)
  show ?thesis
    using g m b by (simp only: c1 c2 e1 e2 simp_thms)
qed

text \<open>
  A request to a server whose configuration is incomplete is answered with the
  configuration error, without a GitHub call and without reading the template. With a
  complete configuration, a body that is not JSON, or a body with a \<open>fields\<close> property
  whose value leaves nothing after filtering against the registry, is answered with
  status 400 and the world is untouched: no template read, no GitHub call, nothing logged.
  A failure reported after any GitHub call is the generic publish failure with status 500,
  which differs from 400.
\<close>

lemma handler_error_responses:
  "(owner cfg = [] \<or> repo cfg = [] \<or> pat cfg = [] \<longrightarrow>
      fst (preview_handler rt cfg net template reqBody uuid now w) =
        Inr (TextResponse (ascii ''GitHub repository not configured.'') 500) \<and>
      sent (snd (preview_handler rt cfg net template reqBody uuid now w)) = sent w \<and>
      template_reads (snd (preview_handler rt cfg net template reqBody uuid now w)) =
        template_reads w) \<and>
   (owner cfg \<noteq> [] \<and> repo cfg \<noteq> [] \<and> pat cfg \<noteq> [] \<and> reqBody = None \<longrightarrow>
      preview_handler rt cfg net template reqBody uuid now w =
        (Inr (TextResponse (ascii ''Invalid JSON body.'') 400), w)) \<and>
   (\<forall>body raw.
      owner cfg \<noteq> [] \<and> repo cfg \<noteq> [] \<and> pat cfg \<noteq> [] \<and> reqBody = Some body \<and>
      property body (ascii ''fields'') = Inr raw \<and> normalizeFieldValues raw = [] \<longrightarrow>
        preview_handler rt cfg net template reqBody uuid now w =
          (Inr (TextResponse (ascii ''No valid fields provided.'') 400), w)) \<and>
   (\<forall>resp.
      fst (preview_handler rt cfg net template reqBody uuid now w) = Inr resp \<and>
      sent (snd (preview_handler rt cfg net template reqBody uuid now w)) \<noteq> sent w \<and>
      (\<forall>j. resp \<noteq> JsonResponse j) \<longrightarrow>
        resp = TextResponse (ascii ''Failed to publish preview.'') 500 \<and>
        response_status resp \<noteq> 400)"
proof (intro conjI allI impI)
  assume c: "owner cfg = [] \<or> repo cfg = [] \<or> pat cfg = []"
  then show "fst (preview_handler rt cfg net template reqBody uuid now w) =
        Inr (TextResponse (ascii ''GitHub repository not configured.'') 500)"
    by (simp add: preview_handler_def bind_io_def log_io_def return_io_def)
  from c show "sent (snd (preview_handler rt cfg net template reqBody uuid now w)) = sent w"
    by (simp add: preview_handler_def bind_io_def log_io_def return_io_def)
  from c show "template_reads (snd (preview_handler rt cfg net template reqBody uuid now w)) =
        template_reads w"
    by (simp add: preview_handler_def bind_io_def log_io_def return_io_def)
next
  assume "owner cfg \<noteq> [] \<and> repo cfg \<noteq> [] \<and> pat cfg \<noteq> [] \<and> reqBody = None"
  then show "preview_handler rt cfg net template reqBody uuid now w =
        (Inr (TextResponse (ascii ''Invalid JSON body.'') 400), w)"
    by (simp add: preview_handler_def return_io_def)
next
  fix body raw
  assume "owner cfg \<noteq> [] \<and> repo cfg \<noteq> [] \<and> pat cfg \<noteq> [] \<and> reqBody = Some body \<and>
      property body (ascii ''fields'') = Inr raw \<and> normalizeFieldValues raw = []"
  then show "preview_handler rt cfg net template reqBody uuid now w =
          (Inr (TextResponse (ascii ''No valid fields provided.'') 400), w)"
    by (simp add: preview_handler_def return_io_def)
next
  fix resp
  assume a: "fst (preview_handler rt cfg net template reqBody uuid now w) = Inr resp \<and>
      sent (snd (preview_handler rt cfg net template reqBody uuid now w)) \<noteq> sent w \<and>
      (\<forall>j. resp \<noteq> JsonResponse j)"
  then show r: "resp = TextResponse (ascii ''Failed to publish preview.'') 500"
    by (auto simp: preview_handler_def bind_io_def log_io_def return_io_def throw_io_def Let_def
        published_def split: option.splits sum.splits prod.splits if_splits)
  show "response_status resp \<noteq> 400" by (simp add: r)
qed

lemma example_failed_publish:
  "fst (preview_handler rt example_config (scripted [reply 500 None]) (Some t) (Some example_body)
          uuid now example_world) =
     Inr (TextResponse (ascii ''Failed to publish preview.'') 500) \<and>
   sent (snd (preview_handler rt example_config (scripted [reply 500 None]) (Some t)
                (Some example_body) uuid now example_world)) \<noteq> sent example_world"
proof -
  have p: "property example_body (ascii ''fields'') = Inr (json_get example_body (ascii ''fields''))"
    by (simp add: property_def example_body_def)
  have c: "owner example_config \<noteq> []" "repo example_config \<noteq> []" "pat example_config \<noteq> []"
    by (simp_all add: example_config_def ascii_def)
  have "fst (pushPreviewBranch rt example_config (scripted [reply 500 None]) uuid content msg
               (example_world\<lparr>template_reads := n\<rparr>)) =
          Inl (Error (ascii ''Unable to load base branch reference.'')) \<and>
        sent (snd (pushPreviewBranch rt example_config (scripted [reply 500 None]) uuid content msg
               (example_world\<lparr>template_reads := n\<rparr>))) \<noteq> []" for content msg n
    using c
    by (simp add: pushPreviewBranch_def githubPatRequest_def bind_io_def throw_io_def Let_def
        scripted_def reply_def answer_def ok_def example_world_def)
  from this [of "html (applyFieldsToTemplate rt t
          (normalizeFieldValues (json_get example_body (ascii ''fields''))))"
        "commit_message example_body now" "Suc (template_reads example_world)"]
  obtain w' where
    "pushPreviewBranch rt example_config (scripted [reply 500 None]) uuid
       (html (applyFieldsToTemplate rt t
          (normalizeFieldValues (json_get example_body (ascii ''fields'')))))
       (commit_message example_body now)
       (example_world\<lparr>template_reads := Suc (template_reads example_world)\<rparr>) =
     (Inl (Error (ascii ''Unable to load base branch reference.'')), w')" "sent w' \<noteq> []"
    by (metis prod.collapse)
  then show ?thesis
    using c p
    by (simp add: preview_handler_def example_body_fields [symmetric] Let_def bind_io_def
        log_io_def return_io_def) (simp add: example_world_def example_body_fields)
qed

lemma handler_error_responses_examples:
  "fst (preview_handler (example_runtime example_document) (example_config\<lparr>pat := []\<rparr>)
          (scripted []) (Some []) (Some example_body) example_uuid example_now example_world) =
     Inr (TextResponse (ascii ''GitHub repository not configured.'') 500) \<and>
   preview_handler (example_runtime example_document) example_config (scripted []) (Some []) None
       example_uuid example_now example_world =
     (Inr (TextResponse (ascii ''Invalid JSON body.'') 400), example_world) \<and>
   property empty_fields_body (ascii ''fields'') = Inr (JObj []) \<and>
   normalizeFieldValues (JObj []) = [] \<and>
   preview_handler (example_runtime example_document) example_config (scripted []) (Some [])
       (Some empty_fields_body) example_uuid example_now example_world =
     (Inr (TextResponse (ascii ''No valid fields provided.'') 400), example_world) \<and>
   fst (preview_handler (example_runtime example_document) example_config
          (scripted [reply 500 None]) (Some []) (Some example_body) example_uuid example_now
          example_world) =
     Inr (TextResponse (ascii ''Failed to publish preview.'') 500) \<and>
   sent (snd (preview_handler (example_runtime example_document) example_config
                (scripted [reply 500 None]) (Some []) (Some example_body) example_uuid
                example_now example_world)) \<noteq> sent example_world"
proof -
  let ?rt = "example_runtime example_document"
  have c: "owner example_config \<noteq> []" "repo example_config \<noteq> []" "pat example_config \<noteq> []"
    by (simp_all add: example_config_def ascii_def)
  have p: "property empty_fields_body (ascii ''fields'') = Inr (JObj [])"
    by (simp add: property_def empty_fields_body_def)
  have n: "normalizeFieldValues (JObj []) = []"
    by (simp add: normalizeFieldValues_def)
  note T1 = handler_error_responses
    [of "example_config\<lparr>pat := []\<rparr>" ?rt "scripted []" "Some []" "Some example_body"
        example_uuid example_now example_world, THEN conjunct1]
  note T2 = handler_error_responses
    [of example_config ?rt "scripted []" "Some []" None
        example_uuid example_now example_world, THEN conjunct2, THEN conjunct1]
  note T3 = handler_error_responses
    [of example_config ?rt "scripted []" "Some []" "Some empty_fields_body"
        example_uuid example_now example_world, THEN conjunct2, THEN conjunct2, THEN conjunct1,
        rule_format, of empty_fields_body "JObj []"]
  note F = example_failed_publish [of ?rt "[]" example_uuid example_now]
  show ?thesis
    using T1 T2 T3 c p n F by simp
qed

text \<open>
  C7. The body \<open>null\<close> is valid JSON and is not structured data, and it is the one body for
  which the handler gives no validation failure: reading its \<open>fields\<close> throws a type error
  that the handler does not catch, so the request ends with that exception (no template
  read, no GitHub call, nothing logged) and not with the response of status 400. Every
  other body that is not an object with usable fields (a number, a string, an array, the
  empty object) is answered with \<open>No valid fields provided.\<close> and status 400.
\<close>

theorem null_body_throws_uncaught:
  "preview_handler (example_runtime example_document) example_config (scripted []) (Some [])
       (Some JNull) example_uuid example_now example_world =
     (Inl TypeError, example_world) \<and>
   preview_handler (example_runtime example_document) example_config (scripted []) (Some [])
       (Some (JNum 0x4014000000000000)) example_uuid example_now example_world =
     (Inr (TextResponse (ascii ''No valid fields provided.'') 400), example_world) \<and>
   preview_handler (example_runtime example_document) example_config (scripted []) (Some [])
       (Some (JStr (ascii ''x''))) example_uuid example_now example_world =
     (Inr (TextResponse (ascii ''No valid fields provided.'') 400), example_world) \<and>
   preview_handler (example_runtime example_document) example_config (scripted []) (Some [])
       (Some (JArr [])) example_uuid example_now example_world =
     (Inr (TextResponse (ascii ''No valid fields provided.'') 400), example_world) \<and>
   preview_handler (example_runtime example_document) example_config (scripted []) (Some [])
       (Some (JObj [])) example_uuid example_now example_world =
     (Inr (TextResponse (ascii ''No valid fields provided.'') 400), example_world)"
proof -
  have c: "owner example_config \<noteq> []" "repo example_config \<noteq> []" "pat example_config \<noteq> []"
    by (simp_all add: example_config_def ascii_def)
  have n: "normalizeFieldValues JUndefined = []"
    by (simp add: normalizeFieldValues_def)
  show ?thesis
    using c by (simp add: preview_handler_def property_def n return_io_def throw_io_def)
qed



section \<open>Derived title\<close>

lemma registry_person:
  "TEMPLATE_FIELD_MAP (ascii ''personFirst'') = Some (field ''personFirst'' ''.card__person-first'' None)"
  "TEMPLATE_FIELD_MAP (ascii ''personLast'') = Some (field ''personLast'' ''.card__person-last'' None)"
  by (simp_all add: TEMPLATE_FIELD_MAP_def TEMPLATE_FIELD_CONFIGS_def field_def ascii_def)

lemma derive_title_read_back:
  "derive_title rt d =
     (if computedTitle rt (read_back d ''personFirst'') (read_back d ''personLast'') \<noteq> []
      then set_title (computedTitle rt (read_back d ''personFirst'') (read_back d ''personLast'')) d
      else d)"
  by (simp add: derive_title_def read_back_def registry_person Let_def)

lemma sanitized_ends:
  assumes "sanitizeFieldValue v \<noteq> []"
  shows "\<not> is_ws (hd (sanitizeFieldValue v)) \<and> \<not> is_ws (last (sanitizeFieldValue v))"
proof (cases v)
  case (JStr s)
  with assms have "ws_words s \<noteq> []" by (auto simp: sanitizeFieldValue_def sanitize_words)
  from js_join_ends [OF this ws_words_word_like] JStr show ?thesis
    by (simp add: sanitizeFieldValue_def sanitize_words)
qed (use assms in \<open>simp_all add: sanitizeFieldValue_def\<close>)

lemma read_back_ends:
  "read_back d fid \<noteq> [] \<Longrightarrow> \<not> is_ws (hd (read_back d fid)) \<and> \<not> is_ws (last (read_back d fid))"
  by (auto simp: read_back_def sanitized_ends split: option.splits)

lemma capitalize_ends:
  assumes up: "case_mapping (toUpperCase rt)" and low: "case_mapping (toLowerCase rt)"
    and s: "s \<noteq> []" "\<not> is_ws (hd s)" "\<not> is_ws (last s)"
  shows "capitalizeWord rt s \<noteq> [] \<and> \<not> is_ws (hd (capitalizeWord rt s)) \<and>
         \<not> is_ws (last (capitalizeWord rt s))"
proof -
  from s obtain c cs where cs: "s = c # cs" by (cases s) auto
  have u: "toUpperCase rt [c] \<noteq> []" "\<not> is_ws (hd (toUpperCase rt [c]))"
      "\<not> is_ws (last (toUpperCase rt [c]))" if "cs = []"
    using up s that by (auto simp: case_mapping_def cs)
  have u': "toUpperCase rt [c] \<noteq> []" "\<not> is_ws (hd (toUpperCase rt [c]))"
    using up s by (auto simp: case_mapping_def cs)
  show ?thesis
  proof (cases "cs = []")
    case True
    then have "toLowerCase rt cs = []" using low by (simp add: case_mapping_def)
    then show ?thesis using u [OF True] by (simp add: capitalizeWord_def cs)
  next
    case False
    then have "toLowerCase rt cs \<noteq> []" "\<not> is_ws (last (toLowerCase rt cs))"
      using low s by (auto simp: case_mapping_def cs)
    then show ?thesis using u' by (simp add: capitalizeWord_def cs)
  qed
qed

lemma trim_ends_id: "s \<noteq> [] \<Longrightarrow> \<not> is_ws (hd s) \<Longrightarrow> \<not> is_ws (last s) \<Longrightarrow> trim s = s"
  by (simp add: trim_def dropWhile_id_hd rev_trim_id)

lemma capitalize_Nil [simp]: "capitalizeWord rt [] = []"
  by (simp add: capitalizeWord_def)

lemma computedTitle_cases:
  assumes up: "case_mapping (toUpperCase rt)" and low: "case_mapping (toLowerCase rt)"
    and f: "f \<noteq> [] \<longrightarrow> \<not> is_ws (hd f) \<and> \<not> is_ws (last f)"
    and l: "l \<noteq> [] \<longrightarrow> \<not> is_ws (hd l) \<and> \<not> is_ws (last l)"
  shows "computedTitle rt f l =
     (if f \<noteq> [] \<and> l \<noteq> [] then capitalizeWord rt f @ [0x20] @ capitalizeWord rt l
      else if f \<noteq> [] then capitalizeWord rt f
      else capitalizeWord rt l)"
    and "computedTitle rt f l = [] \<longleftrightarrow> f = [] \<and> l = []"
proof -
  have cf: "capitalizeWord rt f \<noteq> [] \<and> \<not> is_ws (hd (capitalizeWord rt f)) \<and>
      \<not> is_ws (last (capitalizeWord rt f))" if "f \<noteq> []"
    using capitalize_ends [OF up low that] f that by simp
  have cl: "capitalizeWord rt l \<noteq> [] \<and> \<not> is_ws (hd (capitalizeWord rt l)) \<and>
      \<not> is_ws (last (capitalizeWord rt l))" if "l \<noteq> []"
    using capitalize_ends [OF up low that] l that by simp
  show eq: "computedTitle rt f l =
     (if f \<noteq> [] \<and> l \<noteq> [] then capitalizeWord rt f @ [0x20] @ capitalizeWord rt l
      else if f \<noteq> [] then capitalizeWord rt f
      else capitalizeWord rt l)"
  proof (cases "f = []"; cases "l = []")
    assume "f \<noteq> []" "l \<noteq> []"
    then show ?thesis
      using cf cl by (simp add: computedTitle_def trim_ends_id)
  next
    assume "f \<noteq> []" "l = []"
    then show ?thesis using cf by (simp add: computedTitle_def trim_ends_id)
  next
    assume "f = []" "l \<noteq> []"
    then show ?thesis using cl by (simp add: computedTitle_def trim_ends_id)
  next
    assume "f = []" "l = []"
    then show ?thesis by (simp add: computedTitle_def)
  qed
  show "computedTitle rt f l = [] \<longleftrightarrow> f = [] \<and> l = []"
    using cf cl by (auto simp: eq)
qed

lemma qsa_children_first:
  "qsa_children steps ancs j ks = (i # q) # rest \<Longrightarrow>
     \<exists>m. i = j + m \<and> m < length ks \<and> (\<forall>m' < m. qsa_node steps ancs (ks ! m') = []) \<and>
         (\<exists>r. qsa_node steps ancs (ks ! m) = q # r)"
proof (induction ks arbitrary: j)
  case Nil then show ?case by simp
next
  case (Cons k ks)
  show ?case
  proof (cases "qsa_node steps ancs k")
    case Nil
    with Cons.prems have "qsa_children steps ancs (Suc j) ks = (i # q) # rest" by simp
    from Cons.IH [OF this] obtain m where m: "i = Suc j + m" "m < length ks"
      "\<forall>m' < m. qsa_node steps ancs (ks ! m') = []" "\<exists>r. qsa_node steps ancs (ks ! m) = q # r"
      by blast
    have "\<forall>m' < Suc m. qsa_node steps ancs ((k # ks) ! m') = []"
      using m(3) Nil by (auto simp: less_Suc_eq_0_disj)
    with m show ?thesis by (intro exI [of _ "Suc m"]) simp
  next
    case (Cons q' qs)
    with Cons.prems have "i = j" "q = q'" by simp_all
    with Cons show ?thesis by (intro exI [of _ 0]) simp
  qed
qed

lemma qsa_children_first_conv:
  "m < length ks \<Longrightarrow> \<forall>m' < m. qsa_node steps ancs (ks ! m') = [] \<Longrightarrow>
     qsa_node steps ancs (ks ! m) = q # r \<Longrightarrow>
     \<exists>rest. qsa_children steps ancs j ks = ((j + m) # q) # rest"
proof (induction ks arbitrary: j m)
  case Nil then show ?case by simp
next
  case (Cons k ks)
  show ?case
  proof (cases m)
    case 0
    with Cons.prems show ?thesis by simp
  next
    case (Suc m')
    have k: "qsa_node steps ancs k = []" using Cons.prems(2) Suc by auto
    have "\<forall>i < m'. qsa_node steps ancs (ks ! i) = []" using Cons.prems(2) Suc by auto
    moreover have "m' < length ks" "qsa_node steps ancs (ks ! m') = q # r"
      using Cons.prems Suc by simp_all
    ultimately obtain rest where "qsa_children steps ancs (Suc j) ks = ((Suc j + m') # q) # rest"
      using Cons.IH [of m' "Suc j"] by blast
    then show ?thesis using k Suc by simp
  qed
qed

lemma qsa_children_nonempty_paths: "p \<in> set (qsa_children steps ancs j ks) \<Longrightarrow> p \<noteq> []"
  by (induction ks arbitrary: j) auto

lemma first_match_after_set:
  "qsa_node steps ancs n = p # rest \<Longrightarrow>
     (\<exists>rest'. qsa_node steps ancs (set_textContent p v n) = p # rest') \<and>
     map_option textContent (node_at p (set_textContent p v n)) = Some v \<and>
     node_at p n \<noteq> None"
proof (induction p arbitrary: n ancs rest)
  case Nil
  then obtain tag attrs kids where n: "n = Element tag attrs kids" by (cases n) auto
  have "matches steps ancs tag attrs"
  proof (rule ccontr)
    assume "\<not> matches steps ancs tag attrs"
    with Nil n have "[] \<in> set (qsa_children steps ((tag, attrs) # ancs) 0 kids)" by simp
    then show False using qsa_children_nonempty_paths by blast
  qed
  then show ?case by (simp add: n)
next
  case (Cons i q)
  then obtain tag attrs kids where n: "n = Element tag attrs kids" by (cases n) auto
  have nm: "\<not> matches steps ancs tag attrs" using Cons.prems n by (auto split: if_splits)
  with Cons.prems n have ch: "qsa_children steps ((tag, attrs) # ancs) 0 kids = (i # q) # rest"
    by simp
  from qsa_children_first [OF ch] obtain r where
    i: "i < length kids" "\<forall>m' < i. qsa_node steps ((tag, attrs) # ancs) (kids ! m') = []"
      "qsa_node steps ((tag, attrs) # ancs) (kids ! i) = q # r"
    by auto
  let ?k = "set_textContent q v (kids ! i)"
  let ?kids = "kids[i := ?k]"
  from Cons.IH [OF i(3)] obtain r' where
    k: "qsa_node steps ((tag, attrs) # ancs) ?k = q # r'"
      "map_option textContent (node_at q ?k) = Some v" "node_at q (kids ! i) \<noteq> None"
    by blast
  have "\<forall>m' < i. qsa_node steps ((tag, attrs) # ancs) (?kids ! m') = []"
    using i(1,2) by simp
  moreover have "qsa_node steps ((tag, attrs) # ancs) (?kids ! i) = q # r'"
    using i(1) k(1) by simp
  ultimately obtain rest' where
    "qsa_children steps ((tag, attrs) # ancs) 0 ?kids = ((0 + i) # q) # rest'"
    using qsa_children_first_conv [of i ?kids steps "(tag, attrs) # ancs" q r' 0] i(1) by auto
  then show ?case using nm i(1) k(2,3) by (simp add: n)
qed

lemma document_title_set_title:
  "document_title d \<noteq> None \<Longrightarrow> document_title (set_title v d) = Some v"
proof -
  assume "document_title d \<noteq> None"
  then obtain p rest where q: "qsa_node (parse_selector (ascii ''title'')) [] d = p # rest"
    by (auto simp: document_title_def querySelector_def querySelectorAll_def split: list.splits)
  from first_match_after_set [OF q, of v] q show ?thesis
    by (auto simp: document_title_def set_title_def querySelector_def querySelectorAll_def)
qed

text \<open>
  C1, amended. The derived title is computed from \<open>personFirst\<close> and \<open>personLast\<close> as
  they are read back from the document after the writes and sanitized again, each
  capitalized: the upper case of the first code unit followed by the lower case of the
  rest. When both are non-empty the text of the document's title element becomes the two
  joined by one space; when exactly one is non-empty it becomes that one, capitalized; the
  document is left as the writes made it only when both are empty. Setting the title
  changes nothing in a document without a title element. The case mappings are the
  runtime's; the statement asks of them what \<open>case_mapping\<close> says.
\<close>

theorem derived_title_of_document:
  fixes rt doc "values"
  defines "written \<equiv> fst (write_fields values doc)"
  defines "first \<equiv> read_back written ''personFirst''"
  defines "lst \<equiv> read_back written ''personLast''"
  defines "final \<equiv> fst (applyFieldsToDocument rt doc values)"
  assumes "case_mapping (toUpperCase rt)" and "case_mapping (toLowerCase rt)"
  shows "(first \<noteq> [] \<and> lst \<noteq> [] \<longrightarrow>
            final = set_title (capitalizeWord rt first @ [0x20] @ capitalizeWord rt lst) written) \<and>
         (first \<noteq> [] \<and> lst = [] \<longrightarrow> final = set_title (capitalizeWord rt first) written) \<and>
         (first = [] \<and> lst \<noteq> [] \<longrightarrow> final = set_title (capitalizeWord rt lst) written) \<and>
         (first = [] \<and> lst = [] \<longrightarrow> final = written) \<and>
         (\<forall>v. document_title written \<noteq> None \<longrightarrow> document_title (set_title v written) = Some v) \<and>
         (\<forall>v. document_title written = None \<longrightarrow> set_title v written = written)"
proof -
  have final: "final = derive_title rt written"
    by (simp add: final_def written_def applyFieldsToDocument_def split: prod.splits)
  note ct = computedTitle_cases [OF assms(5,6), of first lst]
  have f: "first \<noteq> [] \<longrightarrow> \<not> is_ws (hd first) \<and> \<not> is_ws (last first)"
    unfolding first_def using read_back_ends by blast
  have l: "lst \<noteq> [] \<longrightarrow> \<not> is_ws (hd lst) \<and> \<not> is_ws (last lst)"
    unfolding lst_def using read_back_ends by blast
  have "set_title v written = written" if "document_title written = None" for v
  proof (cases "querySelector written (ascii ''title'')")
    case None
    then show ?thesis by (simp add: set_title_def)
  next
    case (Some p)
    then obtain rest where "qsa_node (parse_selector (ascii ''title'')) [] written = p # rest"
      by (auto simp: querySelector_def querySelectorAll_def split: list.splits)
    from first_match_after_set [OF this, of "[]"] have "node_at p written \<noteq> None" by simp
    with Some that show ?thesis by (auto simp: document_title_def)
  qed
  then show ?thesis
    unfolding final derive_title_read_back
    using ct(1) [OF f l] ct(2) [OF f l] document_title_set_title [of written]
    by (auto simp: first_def [symmetric] lst_def [symmetric])
qed


lemmas dom_eval =
  writeTemplateField_def readTemplateField_def getTemplateNode_def field_def attr_of_def
  querySelector_def querySelectorAll_def parse_selector_def matches_def class_list_def
  getAttribute_def card_with_def span_def text_only_def ascii_def

lemma example_document_card:
  "example_document = card_with (ascii ''Card'') (ascii ''Jonathan'') (ascii ''Goon'')"
  by (simp add: example_document_def)

lemma card_written:
  "fst (write_fields [(ascii ''personFirst'', x), (ascii ''personLast'', y)] (card_with t f l)) =
     card_with t x y"
  by (simp add: write_fields_def registry_person) (simp add: dom_eval)

lemma card_read_back:
  "read_back (card_with t f l) ''personFirst'' = sanitizeFieldValue (JStr f)"
  "read_back (card_with t f l) ''personLast'' = sanitizeFieldValue (JStr l)"
  by (simp_all add: read_back_def registry_person) (simp_all add: dom_eval)

lemma card_title:
  "document_title (card_with t f l) = Some t"
  "set_title v (card_with t f l) = card_with v f l"
  by (simp_all add: document_title_def set_title_def dom_eval)

lemma ascii_letters_not_ws:
  "\<forall>c \<in> set (ascii ''abcdefghijklmnopqrstuvwxyz''). \<not> is_ws c"
  "\<forall>c \<in> set (ascii ''ABCDEFGHIJKLMNOPQRSTUVWXYZ''). \<not> is_ws c"
  by (simp_all add: ascii_def is_ws_def)

lemma upper_ascii_ws: "is_ws (upper_ascii c) = is_ws c"
proof (cases "map_of (zip (ascii ''abcdefghijklmnopqrstuvwxyz'') (ascii ''ABCDEFGHIJKLMNOPQRSTUVWXYZ'')) c")
  case None
  then show ?thesis by (simp add: upper_ascii_def)
next
  case (Some u)
  then have "(c, u) \<in> set (zip (ascii ''abcdefghijklmnopqrstuvwxyz'') (ascii ''ABCDEFGHIJKLMNOPQRSTUVWXYZ''))"
    by (rule map_of_SomeD)
  then have "c \<in> set (ascii ''abcdefghijklmnopqrstuvwxyz'')" "u \<in> set (ascii ''ABCDEFGHIJKLMNOPQRSTUVWXYZ'')"
    by (auto dest: set_zip_leftD set_zip_rightD)
  then have "\<not> is_ws c" "\<not> is_ws u" using ascii_letters_not_ws by blast+
  then show ?thesis using Some by (simp add: upper_ascii_def)
qed

lemma lower_ascii_ws: "is_ws (lower_ascii c) = is_ws c"
proof (cases "map_of (zip (ascii ''ABCDEFGHIJKLMNOPQRSTUVWXYZ'') (ascii ''abcdefghijklmnopqrstuvwxyz'')) c")
  case None
  then show ?thesis by (simp add: lower_ascii_def)
next
  case (Some u)
  then have "(c, u) \<in> set (zip (ascii ''ABCDEFGHIJKLMNOPQRSTUVWXYZ'') (ascii ''abcdefghijklmnopqrstuvwxyz''))"
    by (rule map_of_SomeD)
  then have "c \<in> set (ascii ''ABCDEFGHIJKLMNOPQRSTUVWXYZ'')" "u \<in> set (ascii ''abcdefghijklmnopqrstuvwxyz'')"
    by (auto dest: set_zip_leftD set_zip_rightD)
  then have "\<not> is_ws c" "\<not> is_ws u" using ascii_letters_not_ws by blast+
  then show ?thesis using Some by (simp add: lower_ascii_def)
qed

lemma example_case_mappings:
  "case_mapping (toUpperCase (example_runtime d))" "case_mapping (toLowerCase (example_runtime d))"
  by (simp_all add: case_mapping_def example_runtime_def hd_map last_map upper_ascii_ws
      lower_ascii_ws)

lemma example_computedTitle:
  "computedTitle (example_runtime d) (ascii ''patrick'') (ascii ''BATEMAN'') = ascii ''Patrick Bateman''"
  "computedTitle (example_runtime d) (ascii ''patrick'') [] = ascii ''Patrick''"
  "computedTitle (example_runtime d) [] [] = []"
  by (simp_all add: computedTitle_def capitalizeWord_def example_runtime_def upper_ascii_def
      lower_ascii_def trim_def is_ws_def ascii_def)

lemma example_sanitized:
  "sanitizeFieldValue (JStr (ascii ''patrick'')) = ascii ''patrick''"
  "sanitizeFieldValue (JStr (ascii ''BATEMAN'')) = ascii ''BATEMAN''"
  "sanitizeFieldValue (JStr (ascii ''  '')) = []"
  "sanitizeFieldValue (JStr []) = []"
  by (simp_all add: sanitizeFieldValue_def trim_def is_ws_def ascii_def)

lemma card_applied:
  "fst (applyFieldsToDocument rt (card_with t f l)
          [(ascii ''personFirst'', x), (ascii ''personLast'', y)]) =
     derive_title rt (card_with t x y)"
  by (simp add: applyFieldsToDocument_def case_prod_beta card_written)

text \<open>
  C1, refuted as stated: with \<open>personLast\<close> empty after the writes, the title is not left
  untouched but becomes the capitalized first name.
\<close>

theorem title_changes_with_one_name_counterexample:
  "read_back (fst (write_fields first_name_only example_document)) ''personFirst'' = ascii ''patrick'' \<and>
   read_back (fst (write_fields first_name_only example_document)) ''personLast'' = [] \<and>
   document_title (fst (write_fields first_name_only example_document)) = Some (ascii ''Card'') \<and>
   document_title (fst (applyFieldsToDocument (example_runtime example_document) example_document
      first_name_only)) = Some (ascii ''Patrick'')"
proof -
  have "ascii ''Patrick'' \<noteq> []" by (simp add: ascii_def)
  then show ?thesis
    by (simp add: first_name_only_def example_document_card card_applied derive_title_read_back
        card_written card_read_back card_title example_sanitized example_computedTitle)
qed

theorem derived_title_of_document_witness:
  "case_mapping (toUpperCase (example_runtime example_document)) \<and>
   case_mapping (toLowerCase (example_runtime example_document)) \<and>
   read_back (fst (write_fields both_names example_document)) ''personFirst'' = ascii ''patrick'' \<and>
   read_back (fst (write_fields both_names example_document)) ''personLast'' = ascii ''BATEMAN'' \<and>
   fst (applyFieldsToDocument (example_runtime example_document) example_document both_names) =
     card_with (ascii ''Patrick Bateman'') (ascii ''patrick'') (ascii ''BATEMAN'') \<and>
   document_title (fst (write_fields both_names example_document)) = Some (ascii ''Card'') \<and>
   document_title
     (fst (applyFieldsToDocument (example_runtime example_document) example_document both_names)) =
     Some (ascii ''Patrick Bateman'') \<and>
   read_back (fst (write_fields first_name_only example_document)) ''personLast'' = [] \<and>
   fst (applyFieldsToDocument (example_runtime example_document) example_document first_name_only) =
     card_with (ascii ''Patrick'') (ascii ''patrick'') [] \<and>
   read_back (fst (write_fields no_names example_document)) ''personFirst'' = [] \<and>
   read_back (fst (write_fields no_names example_document)) ''personLast'' = [] \<and>
   fst (applyFieldsToDocument (example_runtime example_document) example_document no_names) =
     fst (write_fields no_names example_document) \<and>
   set_title (ascii ''Patrick'') (Text []) = Text []"
proof -
  let ?rt = "example_runtime example_document"
  note cm = example_case_mappings [of example_document]
  note T1 = derived_title_of_document [OF cm, of both_names example_document]
  note T2 = derived_title_of_document [OF cm, of first_name_only example_document]
  note T3 = derived_title_of_document [OF cm, of no_names example_document]
  note T4 = derived_title_of_document [OF cm, of "[]" "Text []"]
  have w: "write_fields [] (Text []) = (Text [], [])" by (simp add: write_fields_def)
  have t: "document_title (Text []) = None"
    by (simp add: document_title_def querySelector_def querySelectorAll_def)
  have e: "capitalizeWord (example_runtime d) (ascii ''BATEMAN'') = ascii ''Bateman''"
      "capitalizeWord (example_runtime d) (ascii ''patrick'') = ascii ''Patrick''"
      "ascii ''Patrick'' @ 0x20 # ascii ''Bateman'' = ascii ''Patrick Bateman''" for d
    by (simp_all add: capitalizeWord_def example_runtime_def upper_ascii_def lower_ascii_def
        ascii_def)
  have n: "ascii ''patrick'' \<noteq> []" "ascii ''BATEMAN'' \<noteq> []"
    by (simp_all add: ascii_def)
  show ?thesis
    using cm T1 T2 T3 T4 n
    by (simp add: both_names_def first_name_only_def no_names_def example_document_card
        card_written card_read_back card_title example_sanitized e w t)
qed


end
